theory Spec2Isabelle
  imports Complex_Main "HOL-Library.Multiset" "HOL-Library.AList"
begin

section \<open>Data model of \<^verbatim>\<open>strawberryfields/tdm/tdmprogram.py\<close>\<close>

text \<open>
  A gate argument is a Python number or a symbolic placeholder. Python distinguishes
  \<^verbatim>\<open>int\<close> from \<^verbatim>\<open>float\<close> at run time (\<^verbatim>\<open>type(x) == float\<close> in \<^verbatim>\<open>compile\<close>),
  so the model keeps the two apart. No arithmetic is done on arguments, only comparisons,
  so a float is read as the real number it denotes. The placeholder created by
  \<^verbatim>\<open>context\<close> under the name \<^verbatim>\<open>p<i>\<close> is \<open>Symbolic i\<close>; \<^verbatim>\<open>int(name[1:])\<close> gives \<open>i\<close> back.
\<close>

datatype number = PyInt int | PyFloat real

fun num_val :: "number \<Rightarrow> real" where
  "num_val (PyInt i) = of_int i"
| "num_val (PyFloat x) = x"

datatype par = Concrete number | Symbolic nat

text \<open>
  An operation object: \<open>op_name\<close> is \<^verbatim>\<open>op.__class__.__name__\<close>, \<open>is_measurement\<close> is
  \<^verbatim>\<open>isinstance(op, ops.Measurement)\<close>, \<open>op_p\<close> is the argument list \<^verbatim>\<open>op.p\<close>.
  A command pairs it with its registers; a register is known by its index \<^verbatim>\<open>r.ind\<close>.
\<close>

record operation =
  op_name :: string
  is_measurement :: bool
  op_p :: "par list"

record command =
  cmd_op :: operation
  cmd_reg :: "nat list"

datatype shift_policy = ShiftDefault | ShiftInt int | ShiftOther

datatype circuit_msg =
    IncompatibleTopology string
  | IncompatibleModeOrdering string
  | IncompatibleParameter string
  | TemporalModes nat string nat
  | ConcurrentModes nat string nat

datatype error =
    ValueError string
  | TypeError string
  | CircuitError circuit_msg
  | AssertionError
  | IndexError
  | KeyError
  | AttributeError
  | ZeroDivisionError

record tdm_program =
  N :: "nat list"
  concurr_modes :: nat
  timebins :: nat
  total_timebins :: nat
  spatial_modes :: nat
  measured_modes :: "nat list"
  rolled_circuit :: "command list option"
  unrolled_circuit :: "command list option"
  circuit :: "command list"
  copies :: nat
  tdm_params :: "number list list"
  shift :: shift_policy

text \<open>
  \<^verbatim>\<open>TDMProgram.__init__\<close>. The attributes \<^verbatim>\<open>copies\<close>, \<^verbatim>\<open>tdm_params\<close> and \<^verbatim>\<open>shift\<close> do not
  exist before \<^verbatim>\<open>context\<close> sets them; no method reads them before that, and the model
  gives them the defaults of \<^verbatim>\<open>context\<close>.
\<close>

definition tdm_init :: "nat list \<Rightarrow> tdm_program" where
  "tdm_init bands =
     \<lparr>N = bands, concurr_modes = sum_list bands, timebins = 0, total_timebins = 0,
      spatial_modes = 0, measured_modes = [], rolled_circuit = None,
      unrolled_circuit = None, circuit = [], copies = 1, tdm_params = [],
      shift = ShiftDefault\<rparr>"

text \<open>
  The register pool of the base class: \<^verbatim>\<open>num_subsystems=self.concurr_modes\<close> registers,
  with indices \<open>0\<close>, \<open>1\<close>, ...
\<close>

definition register :: "tdm_program \<Rightarrow> nat list" where
  "register s = [0..<concurr_modes s]"

section \<open>Python slices\<close>

text \<open>
  One bound of a slice \<^verbatim>\<open>l[n:]\<close> or \<^verbatim>\<open>l[:n]\<close>: a negative bound counts from the end, and
  every bound is cut to the list.
\<close>

definition slice_index :: "int \<Rightarrow> nat \<Rightarrow> nat" where
  "slice_index n len = (if n < 0 then nat (int len + n) else min (nat n) len)"

definition shift_by :: "'a list \<Rightarrow> int \<Rightarrow> 'a list" where
  "shift_by l n = drop (slice_index n (length l)) l @ take (slice_index n (length l)) l"

text \<open>\<^verbatim>\<open>l[a:b]\<close> and \<^verbatim>\<open>l[a:b] = xs\<close> for bounds \<open>0 \<le> a\<close>, \<open>0 \<le> b\<close>.\<close>

definition get_slice :: "'a list \<Rightarrow> nat \<Rightarrow> nat \<Rightarrow> 'a list" where
  "get_slice l a b = take (b - a) (drop a l)"

definition set_slice :: "'a list \<Rightarrow> nat \<Rightarrow> nat \<Rightarrow> 'a list \<Rightarrow> 'a list" where
  "set_slice l a b xs = take a l @ xs @ drop (max a b) l"

text \<open>The list \<^verbatim>\<open>sm\<close> of \<^verbatim>\<open>unroll\<close>: one slice \<^verbatim>\<open>(start, stop)\<close> for each band.\<close>

definition sm :: "nat list \<Rightarrow> (nat \<times> nat) list" where
  "sm bands =
     map (\<lambda>i. (sum_list (take i bands), sum_list (take i bands) + bands ! i))
       [0..<length bands]"

section \<open>Unrolling\<close>

definition get_modes :: "command \<Rightarrow> nat list \<Rightarrow> error + nat list" where
  "get_modes cmd q =
     (if cmd_reg cmd = [] then Inl (TypeError ''itemgetter expected 1 argument, got 0'')
      else if list_ex (\<lambda>r. length q \<le> r) (cmd_reg cmd) then Inl IndexError
      else Inr (map (\<lambda>r. q ! r) (cmd_reg cmd)))"

text \<open>
  Lines 497--501 of \<^verbatim>\<open>apply_op\<close>: the copy of the argument list, with its first entry
  replaced when that entry is symbolic. Only \<^verbatim>\<open>params[0]\<close> is looked at.
\<close>

definition resolve_params :: "tdm_program \<Rightarrow> par list \<Rightarrow> nat \<Rightarrow> error + par list" where
  "resolve_params s params t =
     (case params of
        [] \<Rightarrow> Inl IndexError
      | Concrete v # ps \<Rightarrow> Inr (Concrete v # ps)
      | Symbolic arg_index # ps \<Rightarrow>
          (if length (tdm_params s) \<le> arg_index then Inl IndexError
           else if timebins s = 0 then Inl ZeroDivisionError
           else if length (tdm_params s ! arg_index) \<le> t mod timebins s then Inl IndexError
           else Inr (Concrete (tdm_params s ! arg_index ! (t mod timebins s)) # ps)))"

definition apply_op :: "tdm_program \<Rightarrow> command \<Rightarrow> nat list \<Rightarrow> nat \<Rightarrow> error + tdm_program" where
  "apply_op s cmd q t =
     (case resolve_params s (op_p (cmd_op cmd)) t of
        Inl e \<Rightarrow> Inl e
      | Inr params \<Rightarrow>
          (case get_modes cmd q of
             Inl e \<Rightarrow> Inl e
           | Inr modes \<Rightarrow>
               Inr (s\<lparr>circuit := circuit s @
                      [\<lparr>cmd_op = (cmd_op cmd)\<lparr>op_p := params\<rparr>, cmd_reg = modes\<rparr>]\<rparr>)))"

text \<open>The inner loop \<^verbatim>\<open>for cmd in self.rolled_circuit: self.apply_op(cmd, q, i)\<close>.\<close>

fun apply_ops :: "tdm_program \<Rightarrow> command list \<Rightarrow> nat list \<Rightarrow> nat \<Rightarrow> error + tdm_program" where
  "apply_ops s [] q t = Inr s"
| "apply_ops s (cmd # cmds) q t =
     (case apply_op s cmd q t of
        Inl e \<Rightarrow> Inl e
      | Inr s' \<Rightarrow> apply_ops s' cmds q t)"

text \<open>The shift at the end of a time bin (lines 481--489).\<close>

definition shift_default :: "(nat \<times> nat) list \<Rightarrow> 'a list \<Rightarrow> 'a list" where
  "shift_default sl q =
     foldl (\<lambda>q_aux (start, stop).
              set_slice q_aux start stop (shift_by (get_slice q_aux start stop) 1)) q sl"

definition shift_register :: "tdm_program \<Rightarrow> nat list \<Rightarrow> nat list" where
  "shift_register s q =
     (case shift s of
        ShiftDefault \<Rightarrow> shift_default (sm (N s)) q
      | ShiftInt n \<Rightarrow> shift_by q n
      | ShiftOther \<Rightarrow> q)"

text \<open>The outer loop \<^verbatim>\<open>for i in range(self.total_timebins)\<close>, over the list of its steps.\<close>

fun time_loop :: "tdm_program \<Rightarrow> command list \<Rightarrow> nat list \<Rightarrow> nat list \<Rightarrow> error + tdm_program" where
  "time_loop s rc q [] = Inr s"
| "time_loop s rc q (i # steps) =
     (case apply_ops s rc q i of
        Inl e \<Rightarrow> Inl e
      | Inr s' \<Rightarrow> time_loop s' rc (shift_register s' q) steps)"

text \<open>The loop that records \<^verbatim>\<open>cmd.reg[0].ind\<close> of every measurement (lines 473--475).\<close>

fun measured_regs :: "command list \<Rightarrow> error + nat list" where
  "measured_regs [] = Inr []"
| "measured_regs (cmd # cmds) =
     (if is_measurement (cmd_op cmd) then
        (case cmd_reg cmd of
           [] \<Rightarrow> Inl IndexError
         | r # _ \<Rightarrow> (case measured_regs cmds of Inl e \<Rightarrow> Inl e | Inr rs \<Rightarrow> Inr (r # rs)))
      else measured_regs cmds)"

definition unroll :: "tdm_program \<Rightarrow> error + tdm_program" where
  "unroll s =
     (case unrolled_circuit s of
        Some c \<Rightarrow> Inr (s\<lparr>circuit := c\<rparr>)
      | None \<Rightarrow>
          (case rolled_circuit s of
             None \<Rightarrow> Inl (TypeError ''NoneType object is not iterable'')
           | Some rc \<Rightarrow>
               (case measured_regs rc of
                  Inl e \<Rightarrow> Inl e
                | Inr ms \<Rightarrow>
                    (case time_loop (s\<lparr>circuit := [], measured_modes := measured_modes s @ ms\<rparr>)
                            rc (register s) [0..<total_timebins s] of
                       Inl e \<Rightarrow> Inl e
                     | Inr s' \<Rightarrow> Inr (s'\<lparr>unrolled_circuit := Some (circuit s')\<rparr>)))))"

text \<open>
  What one call of \<^verbatim>\<open>apply_op\<close> appends, and the commands of a whole run of the loops in
  the order of their emission. Both are used to describe the loops; \<open>first_error\<close> is
  the outcome of running a list of fallible steps from left to right.
\<close>

definition emit :: "tdm_program \<Rightarrow> command \<Rightarrow> nat list \<Rightarrow> nat \<Rightarrow> error + command" where
  "emit s cmd q t =
     (case resolve_params s (op_p (cmd_op cmd)) t of
        Inl e \<Rightarrow> Inl e
      | Inr params \<Rightarrow>
          (case get_modes cmd q of
             Inl e \<Rightarrow> Inl e
           | Inr modes \<Rightarrow> Inr \<lparr>cmd_op = (cmd_op cmd)\<lparr>op_p := params\<rparr>, cmd_reg = modes\<rparr>))"

fun first_error :: "('e + 'a) list \<Rightarrow> 'e + 'a list" where
  "first_error [] = Inr []"
| "first_error (x # xs) =
     (case x of
        Inl e \<Rightarrow> Inl e
      | Inr a \<Rightarrow> (case first_error xs of Inl e \<Rightarrow> Inl e | Inr ys \<Rightarrow> Inr (a # ys)))"

fun timeline :: "tdm_program \<Rightarrow> command list \<Rightarrow> nat list \<Rightarrow> nat list \<Rightarrow> (error + command) list" where
  "timeline s rc q [] = []"
| "timeline s rc q (i # steps) =
     map (\<lambda>cmd. emit s cmd q i) rc @ timeline s rc (shift_register s q) steps"

section \<open>Construction: \<^verbatim>\<open>context\<close>, \<^verbatim>\<open>__exit__\<close> and the validators\<close>

text \<open>
  \<^verbatim>\<open>input_check\<close>. \<^verbatim>\<open>len(set(param_lengths))\<close> is the number of distinct lengths. The
  value of \<^verbatim>\<open>copies\<close> is any Python number; \<^verbatim>\<open>isinstance(copies, int)\<close> holds for \<open>PyInt\<close>.
\<close>

definition input_check :: "number list list \<Rightarrow> number \<Rightarrow> error + unit" where
  "input_check args cp =
     (if length (remdups (map length args)) \<noteq> 1
      then Inl (ValueError ''Gate-parameter lists must be of equal length.'')
      else (case cp of
              PyInt c \<Rightarrow>
                if c < 1 then Inl (TypeError ''Number of copies must be a positive integer.'')
                else Inr ()
            | PyFloat x \<Rightarrow> Inl (TypeError ''Number of copies must be a positive integer.'')))"

text \<open>
  \<^verbatim>\<open>TDMProgram.context\<close>: the check comes first; the program is touched only when it passes. The
  placeholders \<^verbatim>\<open>self.loop_vars\<close> are \<open>Symbolic 0\<close>, ..., one for each sequence.
\<close>

definition tdm_context ::
  "tdm_program \<Rightarrow> number list list \<Rightarrow> number \<Rightarrow> shift_policy \<Rightarrow> error + tdm_program" where
  "tdm_context s args cp sh =
     (case input_check args cp of
        Inl e \<Rightarrow> Inl e
      | Inr _ \<Rightarrow>
          Inr (s\<lparr>copies := (case cp of PyInt c \<Rightarrow> nat c | PyFloat x \<Rightarrow> 0),
                 tdm_params := args, shift := sh\<rparr>))"

text \<open>\<^verbatim>\<open>Program.append\<close> of the base class, as far as this module relies on it.\<close>

definition append_cmd :: "tdm_program \<Rightarrow> command \<Rightarrow> tdm_program" where
  "append_cmd s cmd = s\<lparr>circuit := circuit s @ [cmd]\<rparr>"

text \<open>
  \<^verbatim>\<open>spatial_modes is not len(N)\<close> compares the identity of two \<^verbatim>\<open>int\<close> objects, both
  computed at run time. CPython keeps one shared object for each integer from \<open>-5\<close> to
  \<open>256\<close> and builds a fresh object for every other result, so the two objects are the
  same exactly when the values are equal and at most \<open>256\<close>.
\<close>

definition int_is_not :: "nat \<Rightarrow> nat \<Rightarrow> bool" where
  "int_is_not a b = (a \<noteq> b \<or> 256 < a)"

text \<open>The loop of \<^verbatim>\<open>validate_measurements\<close> that adds up \<^verbatim>\<open>len(modes)\<close>.\<close>

definition count_measured :: "command list \<Rightarrow> nat" where
  "count_measured circ =
     foldl (\<lambda>acc cmd. if is_measurement (cmd_op cmd) then acc + length (cmd_reg cmd) else acc)
       0 circ"

definition validate_measurements :: "command list \<Rightarrow> nat list \<Rightarrow> error + nat" where
  "validate_measurements circ bands =
     (if count_measured circ = 0 then Inl (ValueError ''Must be at least one measurement.'')
      else if int_is_not (count_measured circ) (length bands)
      then Inl (ValueError
             ''Number of measurement operators must match number of spatial modes.'')
      else Inr (count_measured circ))"

text \<open>\<^verbatim>\<open>__exit__\<close>; \<open>ok\<close> says that \<^verbatim>\<open>ex_type is None\<close>.\<close>

definition tdm_exit :: "tdm_program \<Rightarrow> bool \<Rightarrow> error + tdm_program" where
  "tdm_exit s ok =
     (if ok then
        (case validate_measurements (circuit s) (N s) of
           Inl e \<Rightarrow> Inl e
         | Inr spatial \<Rightarrow>
             (case tdm_params s of
                [] \<Rightarrow> Inl IndexError
              | ps # _ \<Rightarrow>
                  Inr (s\<lparr>spatial_modes := spatial, timebins := length ps,
                         total_timebins := length ps * copies s,
                         rolled_circuit := Some (circuit s)\<rparr>)))
      else Inr s)"

section \<open>Reshaping the samples\<close>

text \<open>
  \<^verbatim>\<open>ceil(a / b)\<close> for \<open>b > 0\<close>; the quotient of the source is a float, exact for the
  sizes at hand.
\<close>

definition ceil_div :: "nat \<Rightarrow> nat \<Rightarrow> nat" where
  "ceil_div a b = (a + b - 1) div b"

text \<open>\<^verbatim>\<open>zip(*xss)\<close>: the rows of the transpose, as many as the shortest list has entries.\<close>

definition zip_star :: "'a list list \<Rightarrow> 'a list list" where
  "zip_star xss =
     (if xss = [] then []
      else map (\<lambda>k. map (\<lambda>xs. xs ! k) xss) [0..<min_list (map length xss)])"

text \<open>One round of the first loop of \<^verbatim>\<open>_get_mode_order\<close>.\<close>

definition band_modes :: "nat list \<Rightarrow> nat \<Rightarrow> error + nat list" where
  "band_modes bands i =
     (let ra = [sum_list (take i bands)..<sum_list (take (Suc i) bands)]
      in if ra = [] then Inl ZeroDivisionError
         else Inr (concat (replicate (ceil_div (fold max bands 0) (length ra)) ra)))"

definition get_mode_order :: "nat \<Rightarrow> nat list \<Rightarrow> error + nat list" where
  "get_mode_order num_of_values bands =
     (case first_error (map (band_modes bands) [0..<length bands]) of
        Inl e \<Rightarrow> Inl e
      | Inr all_modes \<Rightarrow>
          (let mode_order = concat (zip_star all_modes)
           in if mode_order = [] then Inl ZeroDivisionError
              else Inr (take num_of_values
                     (concat (replicate (ceil_div num_of_values (length mode_order))
                        mode_order)))))"

text \<open>
  A dictionary is an association list with distinct keys, in insertion order. The loop
  of \<^verbatim>\<open>reshape_samples\<close> runs over the rest of \<^verbatim>\<open>enumerate(mode_order)\<close>, \<open>i\<close> being the
  position of the head; \<^verbatim>\<open>all_samples\<close> is changed in place by \<^verbatim>\<open>pop(0)\<close>, so the model
  returns it beside the new dictionary.
\<close>

type_synonym 'a samples = "(nat \<times> 'a list) list"

text \<open>
  Lines 138--140 without the \<^verbatim>\<open>pop\<close>: the channel \<open>idx\<close> gets an empty list when it is
  new, then the outcome \<open>x\<close> is appended to its list.
\<close>

definition add_outcome :: "nat \<Rightarrow> 'a \<Rightarrow> 'a samples \<Rightarrow> 'a samples" where
  "add_outcome idx x new_samples =
     (let new1 = (if map_of new_samples idx = None then AList.update idx [] new_samples
                  else new_samples)
      in AList.update idx ((case map_of new1 idx of None \<Rightarrow> [] | Some ys \<Rightarrow> ys) @ [x]) new1)"

fun reshape_loop ::
  "nat list \<Rightarrow> nat \<Rightarrow> nat \<Rightarrow> nat list \<Rightarrow> 'a samples \<Rightarrow> 'a samples \<Rightarrow> error + ('a samples \<times> 'a samples)" where
  "reshape_loop modes n i [] all_samples new_samples = Inr (new_samples, all_samples)"
| "reshape_loop modes n i (m # rest) all_samples new_samples =
     (if n = 0 then Inl ZeroDivisionError
      else if length modes \<le> i mod n then Inl IndexError
      else
        (case map_of all_samples m of
           None \<Rightarrow> Inl KeyError
         | Some [] \<Rightarrow> Inl IndexError
         | Some (x # xs) \<Rightarrow>
             reshape_loop modes n (Suc i) rest (AList.update m xs all_samples)
               (add_outcome (modes ! (i mod n)) x new_samples)))"

definition reshape_samples ::
  "'a samples \<Rightarrow> nat list \<Rightarrow> nat list \<Rightarrow> error + ('a samples \<times> 'a samples)" where
  "reshape_samples all_samples modes bands =
     (case get_mode_order (length (concat (map snd all_samples))) bands of
        Inl e \<Rightarrow> Inl e
      | Inr mode_order \<Rightarrow> reshape_loop modes (length bands) 0 mode_order all_samples [])"

section \<open>Device compilation\<close>

text \<open>
  Modelled from the spec: the range objects of \<^verbatim>\<open>device.gate_parameters\<close> and their
  membership test \<^verbatim>\<open>x in param_range\<close> belong to the device specification class, which
  is not part of this module. A range is a closed numeric interval, both bounds
  included, or a categorical set, tested by inclusion.
\<close>

datatype param_range = Interval real real | Categorical "real list"

fun in_range :: "real \<Rightarrow> param_range \<Rightarrow> bool" where
  "in_range x (Interval lo hi) = (lo \<le> x \<and> x \<le> hi)"
| "in_range x (Categorical vs) = (x \<in> set vs)"

text \<open>
  One entry of the parsed layout (\<^verbatim>\<open>op["op"]\<close>, \<^verbatim>\<open>op["modes"]\<close>, \<^verbatim>\<open>op["args"]\<close>) and the
  device specification, with the three entries of \<^verbatim>\<open>device.modes\<close> as fields.
\<close>

record layout_op =
  lop_op :: string
  lop_modes :: "nat list"
  lop_args :: "string list"

record device_spec =
  target :: string
  layout :: "layout_op list"
  gate_parameters :: "(string \<times> param_range) list"
  modes_temporal_max :: nat
  modes_concurrent :: nat
  modes_spatial :: nat

text \<open>\<^verbatim>\<open>p[j] == 0\<close>: true of a number of value zero, false of a symbol.\<close>

fun is_zero :: "par \<Rightarrow> bool" where
  "is_zero (Concrete v) = (num_val v = 0)"
| "is_zero (Symbolic i) = False"

text \<open>
  The loop over \<^verbatim>\<open>enumerate(param_names)\<close> (lines 360--381); \<open>k\<close> is the position of the
  head of the remaining names. Only a Python \<^verbatim>\<open>float\<close> takes the first branch.
\<close>

fun check_params ::
  "tdm_program \<Rightarrow> device_spec \<Rightarrow> par list \<Rightarrow> nat \<Rightarrow> nat \<Rightarrow> string list \<Rightarrow> error + unit" where
  "check_params s device ps k counter [] = Inr ()"
| "check_params s device ps k counter (param_name # rest) =
     (case map_of (gate_parameters device) param_name of
        None \<Rightarrow> Inl KeyError
      | Some param_range \<Rightarrow>
          if length ps \<le> k then Inl IndexError
          else
            (case ps ! k of
               Concrete (PyFloat x) \<Rightarrow>
                 if in_range x param_range
                 then check_params s device ps (Suc k) counter rest
                 else Inl (CircuitError (IncompatibleParameter (target device)))
             | _ \<Rightarrow>
                 if length (tdm_params s) \<le> counter then Inl IndexError
                 else if list_all (\<lambda>x. in_range (num_val x) param_range)
                           (tdm_params s ! counter)
                 then check_params s device ps (Suc k) (Suc counter) rest
                 else Inl (CircuitError (IncompatibleParameter (target device)))))"

text \<open>
  The loop over \<^verbatim>\<open>enumerate(device_layout.operations)\<close> (lines 349--381); \<open>i\<close> is the
  position of the head of the remaining operations. The counter starts at \<open>0\<close> for
  every operation.
\<close>

fun check_operations ::
  "tdm_program \<Rightarrow> device_spec \<Rightarrow> command list \<Rightarrow> nat \<Rightarrow> layout_op list \<Rightarrow> error + unit" where
  "check_operations s device rc i [] = Inr ()"
| "check_operations s device rc i (operation # rest) =
     (if length rc \<le> i then Inl IndexError
      else
        (let ps = op_p (cmd_op (rc ! i))
         in if length (lop_args operation) < length ps \<and> \<not> list_all is_zero (drop 1 ps)
            then Inl AssertionError
            else
              (case check_params s device ps 0 0 (lop_args operation) of
                 Inl e \<Rightarrow> Inl e
               | Inr _ \<Rightarrow> check_operations s device rc (Suc i) rest)))"

definition compile :: "tdm_program \<Rightarrow> device_spec \<Rightarrow> error + unit" where
  "compile s device =
     (case rolled_circuit s of
        None \<Rightarrow> Inl (TypeError ''NoneType object is not iterable'')
      | Some rc \<Rightarrow>
          if map lop_op (layout device) \<noteq> map (\<lambda>cmd. op_name (cmd_op cmd)) rc
          then Inl (CircuitError (IncompatibleTopology (target device)))
          else if map cmd_reg rc \<noteq> map lop_modes (layout device)
          then Inl (CircuitError (IncompatibleModeOrdering (target device)))
          else check_operations s device rc 0 (layout device))"

text \<open>
  \<^verbatim>\<open>assert_number_of_modes\<close>. The message of the third branch reads \<^verbatim>\<open>device.timebins\<close>
  and \<^verbatim>\<open>device.modes['max']\<close>; a device specification has neither, so building the
  message fails before a circuit error can be raised.
\<close>

definition assert_number_of_modes :: "tdm_program \<Rightarrow> device_spec \<Rightarrow> error + unit" where
  "assert_number_of_modes s device =
     (if modes_temporal_max device < timebins s
      then Inl (CircuitError
             (TemporalModes (timebins s) (target device) (modes_temporal_max device)))
      else if modes_concurrent device < concurr_modes s
      then Inl (CircuitError
             (ConcurrentModes (concurr_modes s) (target device) (modes_concurrent device)))
      else if modes_spatial device < spatial_modes s
      then Inl AttributeError
      else Inr ())"

text \<open>
  For the statement of what \<^verbatim>\<open>reshape_samples\<close> computes: the outcomes still pending
  for a register, and the outcomes that a first-in, first-out walk over the schedule
  \<open>ms\<close>, started at position \<open>i\<close>, hands to the channel \<open>idx\<close>: position \<open>j\<close> of the
  schedule takes, from the list recorded for its register, the entry after those
  taken by the earlier visits of that register.
\<close>

definition pending :: "'a samples \<Rightarrow> nat \<Rightarrow> 'a list" where
  "pending d k = (case map_of d k of None \<Rightarrow> [] | Some xs \<Rightarrow> xs)"

definition fifo_outcomes ::
  "nat list \<Rightarrow> nat \<Rightarrow> nat \<Rightarrow> nat list \<Rightarrow> 'a samples \<Rightarrow> nat \<Rightarrow> 'a list" where
  "fifo_outcomes modes n i ms all_samples idx =
     map (\<lambda>j. pending all_samples (ms ! j) ! count_list (take j ms) (ms ! j))
       (filter (\<lambda>j. modes ! ((i + j) mod n) = idx) [0..<length ms])"

text \<open>
  The registers that the measurements of a circuit act on, in the order of the
  commands: for an unrolled circuit, the order by which the modes are measured.
\<close>

definition measured_order :: "command list \<Rightarrow> nat list" where
  "measured_order circ = concat (map cmd_reg (filter (\<lambda>cmd. is_measurement (cmd_op cmd)) circ))"

text \<open>
  Modelled from the spec: the engine that runs the unrolled circuit is not part of this
  module. It hands \<^verbatim>\<open>reshape_samples\<close> the raw outcomes as lists keyed by the physical
  register index at the moment of each measurement: the outcome \<open>x\<close> of a measurement of
  register \<open>m\<close> goes to the end of the list of \<open>m\<close>.
\<close>

fun record_samples :: "nat list \<Rightarrow> 'a list \<Rightarrow> 'a samples \<Rightarrow> 'a samples" where
  "record_samples (m # ms) (x # xs) d = record_samples ms xs (AList.update m (pending d m @ [x]) d)"
| "record_samples ms xs d = d"

section \<open>Example programs and devices\<close>

text \<open>Commands as the operators of \<^verbatim>\<open>strawberryfields.ops\<close> build them.\<close>

definition gate :: "string \<Rightarrow> par list \<Rightarrow> nat list \<Rightarrow> command" where
  "gate nm ps rs = \<lparr>cmd_op = \<lparr>op_name = nm, is_measurement = False, op_p = ps\<rparr>, cmd_reg = rs\<rparr>"

definition measure :: "string \<Rightarrow> par list \<Rightarrow> nat list \<Rightarrow> command" where
  "measure nm ps rs = \<lparr>cmd_op = \<lparr>op_name = nm, is_measurement = True, op_p = ps\<rparr>, cmd_reg = rs\<rparr>"

text \<open>
  The program of the class docstring, with \<^verbatim>\<open>copies=1\<close>: \<^verbatim>\<open>TDMProgram(N=2)\<close>,
  \<^verbatim>\<open>context([1, 2], [3, 4])\<close> and the three commands; \<^verbatim>\<open>BSgate(p[0])\<close> has the arguments
  \<^verbatim>\<open>[p0, 0.0]\<close>. \<open>doc_prog\<close> is the program after \<^verbatim>\<open>__exit__\<close>, \<open>doc_unrolled\<close> the one
  after \<^verbatim>\<open>unroll\<close>.
\<close>

definition doc_circuit :: "command list" where
  "doc_circuit =
     [gate ''Sgate'' [Concrete (PyFloat 0.7), Concrete (PyInt 0)] [1],
      gate ''BSgate'' [Symbolic 0, Concrete (PyFloat 0)] [0, 1],
      measure ''MeasureHomodyne'' [Symbolic 1] [0]]"

definition doc_prog :: tdm_program where
  "doc_prog =
     \<lparr>N = [2], concurr_modes = 2, timebins = 2, total_timebins = 2, spatial_modes = 1,
      measured_modes = [], rolled_circuit = Some doc_circuit, unrolled_circuit = None,
      circuit = doc_circuit, copies = 1,
      tdm_params = [[PyInt 1, PyInt 2], [PyInt 3, PyInt 4]], shift = ShiftDefault\<rparr>"

definition doc_unrolled_circuit :: "command list" where
  "doc_unrolled_circuit =
     [gate ''Sgate'' [Concrete (PyFloat 0.7), Concrete (PyInt 0)] [1],
      gate ''BSgate'' [Concrete (PyInt 1), Concrete (PyFloat 0)] [0, 1],
      measure ''MeasureHomodyne'' [Concrete (PyInt 3)] [0],
      gate ''Sgate'' [Concrete (PyFloat 0.7), Concrete (PyInt 0)] [0],
      gate ''BSgate'' [Concrete (PyInt 2), Concrete (PyFloat 0)] [1, 0],
      measure ''MeasureHomodyne'' [Concrete (PyInt 4)] [1]]"

definition doc_unrolled :: tdm_program where
  "doc_unrolled =
     doc_prog\<lparr>circuit := doc_unrolled_circuit, measured_modes := [0],
       unrolled_circuit := Some doc_unrolled_circuit\<rparr>"

text \<open>
  The device of the test suite: its layout, its parameter ranges and its mode
  capacities.
\<close>

definition test_device :: device_spec where
  "test_device =
     \<lparr>target = ''tdm'',
      layout =
        [\<lparr>lop_op = ''Sgate'', lop_modes = [1], lop_args = [''p0'']\<rparr>,
         \<lparr>lop_op = ''BSgate'', lop_modes = [1, 0], lop_args = [''p1'']\<rparr>,
         \<lparr>lop_op = ''Rgate'', lop_modes = [1], lop_args = [''p2'']\<rparr>,
         \<lparr>lop_op = ''MeasureHomodyne'', lop_modes = [0], lop_args = [''p3'']\<rparr>],
      gate_parameters =
        [(''p0'', Categorical [0.5643]),
         (''p1'', Interval 0 6.283185307179586),
         (''p2'', Interval 0 3.141592653589793),
         (''p3'', Interval 0 6.283185307179586)],
      modes_temporal_max = 100, modes_concurrent = 2, modes_spatial = 1\<rparr>"

text \<open>
  A program with one band of one mode: \<^verbatim>\<open>TDMProgram(N=1)\<close>, \<^verbatim>\<open>context([0, 0])\<close> and
  \<^verbatim>\<open>MeasureHomodyne(p[0]) | q[0]\<close>.
\<close>

definition one_mode_prog :: tdm_program where
  "one_mode_prog =
     \<lparr>N = [1], concurr_modes = 1, timebins = 2, total_timebins = 2, spatial_modes = 1,
      measured_modes = [], rolled_circuit = Some [measure ''MeasureHomodyne'' [Symbolic 0] [0]],
      unrolled_circuit = None, circuit = [measure ''MeasureHomodyne'' [Symbolic 0] [0]],
      copies = 1, tdm_params = [[PyInt 0, PyInt 0]], shift = ShiftDefault\<rparr>"

text \<open>What the claims call a positive integer.\<close>

fun positive_int :: "number \<Rightarrow> bool" where
  "positive_int (PyInt c) = (1 \<le> c)"
| "positive_int (PyFloat x) = False"

text \<open>
  Raw samples of two registers, three outcomes each, for one band of two modes
  measured through the channel \<open>0\<close>.
\<close>

definition raw_samples :: "nat samples" where
  "raw_samples = [(0, [10, 30, 50]), (1, [20, 40, 60])]"

text \<open>
  The program of the device tests: \<^verbatim>\<open>Sgate(0.5643) | q[1]\<close>, \<^verbatim>\<open>BSgate(p[0]) | (q[1], q[0])\<close>,
  \<^verbatim>\<open>Rgate(p[1]) | q[1]\<close>, \<^verbatim>\<open>MeasureHomodyne(p[2]) | q[0]\<close> in \<^verbatim>\<open>TDMProgram(N=2)\<close> with
  \<^verbatim>\<open>copies=10\<close>, as it stands after \<^verbatim>\<open>__exit__\<close>, for the three sequences given. The gates
  \<^verbatim>\<open>Sgate\<close> and \<^verbatim>\<open>BSgate\<close> carry a second argument with default \<open>0.0\<close>.
\<close>

definition test_circuit :: "command list" where
  "test_circuit =
     [gate ''Sgate'' [Concrete (PyFloat 0.5643), Concrete (PyFloat 0)] [1],
      gate ''BSgate'' [Symbolic 0, Concrete (PyFloat 0)] [1, 0],
      gate ''Rgate'' [Symbolic 1] [1],
      measure ''MeasureHomodyne'' [Symbolic 2] [0]]"

definition test_prog :: "number list \<Rightarrow> number list \<Rightarrow> number list \<Rightarrow> tdm_program" where
  "test_prog alpha phi theta =
     \<lparr>N = [2], concurr_modes = 2, timebins = length alpha, total_timebins = length alpha * 10,
      spatial_modes = 1, measured_modes = [], rolled_circuit = Some test_circuit,
      unrolled_circuit = None, circuit = test_circuit, copies = 10,
      tdm_params = [alpha, phi, theta], shift = ShiftDefault\<rparr>"

text \<open>
  The sequences of the tests (\<open>\<pi>/4\<close> and \<open>\<pi>/2\<close> as the floats they are), and a sequence
  for \<^verbatim>\<open>p[1]\<close> with the rotation angle \<open>100\<close>.
\<close>

definition alpha_ok :: "number list" where
  "alpha_ok = [PyFloat 0.7853981633974483, PyInt 0, PyFloat 0.7853981633974483, PyInt 0]"

definition phi_ok :: "number list" where
  "phi_ok = [PyInt 0, PyFloat 1.5707963267948966, PyInt 0, PyFloat 1.5707963267948966]"

definition theta_ok :: "number list" where
  "theta_ok = [PyInt 0, PyInt 0, PyFloat 1.5707963267948966, PyFloat 1.5707963267948966]"

definition phi_bad :: "number list" where
  "phi_bad = [PyInt 0, PyFloat 100, PyInt 0, PyFloat 100]"

text \<open>
  A measurement with a fixed angle, and a device whose layout declares no argument
  for it.
\<close>

definition fixed_angle_prog :: tdm_program where
  "fixed_angle_prog =
     one_mode_prog\<lparr>rolled_circuit := Some [measure ''MeasureHomodyne'' [Concrete (PyFloat 0.3)] [0]],
       circuit := [measure ''MeasureHomodyne'' [Concrete (PyFloat 0.3)] [0]]\<rparr>"

definition bare_device :: device_spec where
  "bare_device =
     \<lparr>target = ''bare'',
      layout = [\<lparr>lop_op = ''MeasureHomodyne'', lop_modes = [0], lop_args = []\<rparr>],
      gate_parameters = [],
      modes_temporal_max = 100, modes_concurrent = 1, modes_spatial = 1\<rparr>"

text \<open>
  A program of 257 bands of one mode, each measured once, at the end of its context
  block.
\<close>

definition wide_circuit :: "command list" where
  "wide_circuit = map (\<lambda>i. measure ''MeasureHomodyne'' [Symbolic 0] [i]) [0..<257]"

definition wide_prog :: tdm_program where
  "wide_prog =
     (tdm_init (replicate 257 1))\<lparr>tdm_params := [[PyInt 0]], circuit := wide_circuit\<rparr>"

text \<open>
  \<^verbatim>\<open>BSgate(0.5, p[0]) | (q[0], q[1])\<close> and \<^verbatim>\<open>MeasureHomodyne(p[0]) | q[0]\<close> in
  \<^verbatim>\<open>TDMProgram(N=2)\<close> with \<^verbatim>\<open>context([1, 2])\<close>, and a program whose only command,
  \<^verbatim>\<open>MeasureFock() | q[0]\<close>, has no argument.
\<close>

definition second_arg_circuit :: "command list" where
  "second_arg_circuit =
     [gate ''BSgate'' [Concrete (PyFloat 0.5), Symbolic 0] [0, 1],
      measure ''MeasureHomodyne'' [Symbolic 0] [0]]"

definition second_arg_prog :: tdm_program where
  "second_arg_prog =
     \<lparr>N = [2], concurr_modes = 2, timebins = 2, total_timebins = 2, spatial_modes = 1,
      measured_modes = [], rolled_circuit = Some second_arg_circuit, unrolled_circuit = None,
      circuit = second_arg_circuit, copies = 1,
      tdm_params = [[PyInt 1, PyInt 2]], shift = ShiftDefault\<rparr>"

definition no_arg_prog :: tdm_program where
  "no_arg_prog =
     one_mode_prog\<lparr>rolled_circuit := Some [measure ''MeasureFock'' [] [0]],
       circuit := [measure ''MeasureFock'' [] [0]]\<rparr>"

text \<open>
  Two bands of two and of three modes, each measured at its first register:
  \<^verbatim>\<open>TDMProgram(N=[2, 3])\<close>, \<^verbatim>\<open>context([0]*6, [0]*6)\<close>, \<^verbatim>\<open>MeasureHomodyne(p[0]) | q[0]\<close> and
  \<^verbatim>\<open>MeasureHomodyne(p[1]) | q[2]\<close>, after \<^verbatim>\<open>__exit__\<close>. \<open>two_band_order\<close> is the order by which
  its six time bins measure the registers, \<open>two_band_samples\<close> what is recorded for the
  outcomes \<open>1\<close>, ..., \<open>12\<close> in the order of their measurement.
\<close>

definition two_band_circuit :: "command list" where
  "two_band_circuit =
     [measure ''MeasureHomodyne'' [Symbolic 0] [0],
      measure ''MeasureHomodyne'' [Symbolic 1] [2]]"

definition two_band_prog :: tdm_program where
  "two_band_prog =
     \<lparr>N = [2, 3], concurr_modes = 5, timebins = 6, total_timebins = 6, spatial_modes = 2,
      measured_modes = [], rolled_circuit = Some two_band_circuit, unrolled_circuit = None,
      circuit = two_band_circuit, copies = 1,
      tdm_params = [replicate 6 (PyInt 0), replicate 6 (PyInt 0)], shift = ShiftDefault\<rparr>"

definition two_band_order :: "nat list" where
  "two_band_order = [0, 2, 1, 3, 0, 4, 1, 2, 0, 3, 1, 4]"

definition two_band_samples :: "nat samples" where
  "two_band_samples = [(0, [1, 5, 9]), (2, [2, 8]), (1, [3, 7, 11]), (3, [4, 10]), (4, [6, 12])]"

text \<open>
  One band of two modes measured at its second register: \<^verbatim>\<open>TDMProgram(N=2)\<close>,
  \<^verbatim>\<open>context([0]*4)\<close> and \<^verbatim>\<open>MeasureHomodyne(p[0]) | q[1]\<close>.
\<close>

definition second_slot_circuit :: "command list" where
  "second_slot_circuit = [measure ''MeasureHomodyne'' [Symbolic 0] [1]]"

definition second_slot_prog :: tdm_program where
  "second_slot_prog =
     \<lparr>N = [2], concurr_modes = 2, timebins = 4, total_timebins = 4, spatial_modes = 1,
      measured_modes = [], rolled_circuit = Some second_slot_circuit, unrolled_circuit = None,
      circuit = second_slot_circuit, copies = 1,
      tdm_params = [replicate 4 (PyInt 0)], shift = ShiftDefault\<rparr>"

section \<open>The loops of \<^verbatim>\<open>unroll\<close> in closed form\<close>

lemma first_error_append:
  "first_error (xs @ ys) =
     (case first_error xs of
        Inl e \<Rightarrow> Inl e
      | Inr as \<Rightarrow> (case first_error ys of Inl e \<Rightarrow> Inl e | Inr bs \<Rightarrow> Inr (as @ bs)))"
  by (induction xs) (auto split: sum.splits)

lemma first_error_map_Inr: "first_error (map Inr ys) = Inr ys"
  by (induction ys) simp_all

lemma first_error_Inr_D: "first_error xs = Inr ys \<Longrightarrow> xs = map Inr ys"
  by (induction xs arbitrary: ys) (auto split: sum.splits)

lemma first_error_set:
  "first_error xs = Inr cs \<Longrightarrow> c \<in> set cs \<Longrightarrow> Inr c \<in> set xs"
  by (auto dest: first_error_Inr_D)

lemma emit_circuit_upd [simp]: "emit (s\<lparr>circuit := c\<rparr>) cmd q t = emit s cmd q t"
  by (simp add: emit_def resolve_params_def split: list.splits par.splits)

lemma shift_register_circuit_upd [simp]:
  "shift_register (s\<lparr>circuit := c\<rparr>) = shift_register s"
  by (rule ext) (simp add: shift_register_def split: shift_policy.splits)

lemma apply_op_emit:
  "apply_op s cmd q t =
     (case emit s cmd q t of
        Inl e \<Rightarrow> Inl e
      | Inr c \<Rightarrow> Inr (s\<lparr>circuit := circuit s @ [c]\<rparr>))"
  by (simp add: apply_op_def emit_def split: sum.splits)

lemma apply_ops_emit:
  "apply_ops s cmds q t =
     (case first_error (map (\<lambda>cmd. emit s cmd q t) cmds) of
        Inl e \<Rightarrow> Inl e
      | Inr cs \<Rightarrow> Inr (s\<lparr>circuit := circuit s @ cs\<rparr>))"
proof (induction cmds arbitrary: s)
  case Nil
  then show ?case by simp
next
  case (Cons cmd cmds)
  show ?case
  proof (cases "emit s cmd q t")
    case (Inl e)
    then show ?thesis by (simp add: apply_op_emit)
  next
    case (Inr c)
    show ?thesis
    proof (cases "first_error (map (\<lambda>cmd. emit s cmd q t) cmds)")
      case (Inl e)
      with Inr Cons.IH [of "s\<lparr>circuit := circuit s @ [c]\<rparr>"] show ?thesis
        by (simp add: apply_op_emit)
    next
      case (Inr cs)
      with \<open>emit s cmd q t = Inr c\<close> Cons.IH [of "s\<lparr>circuit := circuit s @ [c]\<rparr>"]
      show ?thesis
        by (simp add: apply_op_emit)
    qed
  qed
qed

lemma timeline_circuit_upd [simp]: "timeline (s\<lparr>circuit := c\<rparr>) rc q steps = timeline s rc q steps"
  by (induction steps arbitrary: q) simp_all

lemma time_loop_emit:
  "time_loop s rc q steps =
     (case first_error (timeline s rc q steps) of
        Inl e \<Rightarrow> Inl e
      | Inr cs \<Rightarrow> Inr (s\<lparr>circuit := circuit s @ cs\<rparr>))"
proof (induction steps arbitrary: s q)
  case Nil
  then show ?case by simp
next
  case (Cons i steps)
  show ?case
  proof (cases "first_error (map (\<lambda>cmd. emit s cmd q i) rc)")
    case (Inl e)
    then show ?thesis
      by (simp add: apply_ops_emit first_error_append)
  next
    case (Inr cs)
    then show ?thesis
      by (simp add: apply_ops_emit first_error_append Cons.IH split: sum.splits)
  qed
qed

lemma emit_cong:
  "tdm_params s1 = tdm_params s2 \<Longrightarrow> timebins s1 = timebins s2 \<Longrightarrow>
   emit s1 cmd q t = emit s2 cmd q t"
  by (simp add: emit_def resolve_params_def split: list.splits par.splits)

lemma shift_register_cong:
  "shift s1 = shift s2 \<Longrightarrow> N s1 = N s2 \<Longrightarrow> shift_register s1 q = shift_register s2 q"
  by (simp add: shift_register_def split: shift_policy.splits)

lemma timeline_cong:
  "tdm_params s1 = tdm_params s2 \<Longrightarrow> timebins s1 = timebins s2 \<Longrightarrow>
   shift s1 = shift s2 \<Longrightarrow> N s1 = N s2 \<Longrightarrow>
   timeline s1 rc q steps = timeline s2 rc q steps"
proof (induction steps arbitrary: q)
  case Nil
  then show ?case by simp
next
  case (Cons i steps)
  from Cons.prems have "emit s1 cmd q i = emit s2 cmd q i" for cmd
    by (intro emit_cong)
  moreover from Cons.prems have "shift_register s1 q = shift_register s2 q"
    by (intro shift_register_cong)
  ultimately show ?case
    using Cons.IH [OF Cons.prems] by simp
qed

lemma unroll_fresh:
  assumes "unrolled_circuit s = None" and "rolled_circuit s = Some rc"
  shows "unroll s =
     (case measured_regs rc of
        Inl e \<Rightarrow> Inl e
      | Inr ms \<Rightarrow>
          (case first_error (timeline s rc (register s) [0..<total_timebins s]) of
             Inl e \<Rightarrow> Inl e
           | Inr cs \<Rightarrow>
               Inr (s\<lparr>circuit := cs, measured_modes := measured_modes s @ ms,
                      unrolled_circuit := Some cs\<rparr>)))"
proof (cases "measured_regs rc")
  case (Inl e)
  with assms show ?thesis by (simp add: unroll_def)
next
  case (Inr ms)
  let ?steps = "[0..<total_timebins s]"
  have t: "timeline (s\<lparr>circuit := [], measured_modes := measured_modes s @ ms\<rparr>) rc
      (register s) ?steps = timeline s rc (register s) ?steps"
    by (rule timeline_cong) simp_all
  show ?thesis
  proof (cases "first_error (timeline s rc (register s) ?steps)")
    case (Inl e)
    with assms Inr t show ?thesis
      by (simp add: unroll_def time_loop_emit)
  next
    case cs: (Inr cs)
    with assms Inr t show ?thesis
      by (simp add: unroll_def time_loop_emit)
  qed
qed

lemma unroll_cached: "unrolled_circuit s = Some c \<Longrightarrow> unroll s = Inr (s\<lparr>circuit := c\<rparr>)"
  by (simp add: unroll_def)

lemma unroll_not_frozen:
  "unrolled_circuit s = None \<Longrightarrow> rolled_circuit s = None \<Longrightarrow>
   unroll s = Inl (TypeError ''NoneType object is not iterable'')"
  by (simp add: unroll_def)

lemma unroll_fresh_Inr:
  assumes "unrolled_circuit s = None" and "rolled_circuit s = Some rc"
    and "measured_regs rc = Inr ms"
    and "first_error (timeline s rc (register s) [0..<total_timebins s]) = Inr cs"
  shows "unroll s = Inr (s\<lparr>circuit := cs, measured_modes := measured_modes s @ ms,
                      unrolled_circuit := Some cs\<rparr>)"
  unfolding unroll_fresh [OF assms(1,2)] using assms(3,4) by simp

lemma unroll_fresh_Inl1:
  assumes "unrolled_circuit s = None" and "rolled_circuit s = Some rc"
    and "measured_regs rc = Inl e"
  shows "unroll s = Inl e"
  unfolding unroll_fresh [OF assms(1,2)] using assms(3) by simp

lemma unroll_fresh_Inl2:
  assumes "unrolled_circuit s = None" and "rolled_circuit s = Some rc"
    and "measured_regs rc = Inr ms"
    and "first_error (timeline s rc (register s) [0..<total_timebins s]) = Inl e"
  shows "unroll s = Inl e"
  unfolding unroll_fresh [OF assms(1,2)] using assms(3,4) by simp

lemma unroll_fresh_cases:
  assumes "unrolled_circuit s = None" and "unroll s = Inr s'"
  obtains rc ms cs where "rolled_circuit s = Some rc" and "measured_regs rc = Inr ms"
    and "first_error (timeline s rc (register s) [0..<total_timebins s]) = Inr cs"
    and "s' = s\<lparr>circuit := cs, measured_modes := measured_modes s @ ms,
                      unrolled_circuit := Some cs\<rparr>"
proof (cases "rolled_circuit s")
  case None
  with assms show ?thesis by (simp add: unroll_not_frozen)
next
  case (Some rc)
  show ?thesis
  proof (cases "measured_regs rc")
    case (Inl e)
    with assms Some show ?thesis by (simp add: unroll_fresh_Inl1)
  next
    case (Inr ms)
    show ?thesis
    proof (cases "first_error (timeline s rc (register s) [0..<total_timebins s])")
      case (Inl e)
      with assms Some Inr show ?thesis by (simp add: unroll_fresh_Inl2)
    next
      case cs: (Inr cs)
      from unroll_fresh_Inr [OF assms(1) Some Inr cs] assms(2) that [OF Some Inr cs]
      show ?thesis by simp
    qed
  qed
qed

section \<open>The shifts permute the register\<close>

lemma mset_shift_by [simp]: "mset (shift_by l n) = mset l"
proof -
  have "mset (drop k l) + mset (take k l) = mset l" for k
    by (metis add.commute append_take_drop_id mset_append)
  then show ?thesis by (simp add: shift_by_def)
qed

lemma length_shift_by [simp]: "length (shift_by l n) = length l"
  by (metis mset_shift_by size_mset)

lemma mset_set_slice_shift:
  "mset (set_slice l a b (shift_by (get_slice l a b) n)) = mset l"
proof (cases "a \<le> b")
  case True
  have "l = take a l @ take (b - a) (drop a l) @ drop (b - a) (drop a l)"
    by (metis append_take_drop_id)
  moreover from True have "drop (b - a) (drop a l) = drop b l"
    by simp
  ultimately have "mset l = mset (take a l) + mset (take (b - a) (drop a l)) + mset (drop b l)"
    by (metis mset_append add.assoc)
  with True show ?thesis
    by (simp add: set_slice_def get_slice_def max_def)
next
  case False
  then show ?thesis
    by (simp add: set_slice_def get_slice_def shift_by_def slice_index_def max_def
        flip: mset_append)
qed

lemma mset_shift_default [simp]: "mset (shift_default sl q) = mset q"
  unfolding shift_default_def
  by (induction sl arbitrary: q) (auto simp: mset_set_slice_shift)

lemma mset_shift_register [simp]: "mset (shift_register s q) = mset q"
  by (simp add: shift_register_def split: shift_policy.splits)

lemma length_shift_register [simp]: "length (shift_register s q) = length q"
  by (metis mset_shift_register size_mset)

lemma mset_shift_register_funpow: "mset ((shift_register s ^^ t) q) = mset q"
  by (induction t) simp_all

lemma emit_regs: "emit s cmd q t = Inr c \<Longrightarrow> set (cmd_reg c) \<subseteq> set q"
  by (auto simp: emit_def get_modes_def list_ex_iff not_le split: sum.splits if_splits)

lemma timeline_regs:
  "Inr c \<in> set (timeline s rc q steps) \<Longrightarrow> set (cmd_reg c) \<subseteq> set q"
proof (induction steps arbitrary: q)
  case Nil
  then show ?case by simp
next
  case (Cons i steps)
  from Cons.prems consider
    (row) cmd where "emit s cmd q i = Inr c"
    | (later) "Inr c \<in> set (timeline s rc (shift_register s q) steps)"
    by auto
  then show ?case
  proof cases
    case row
    then show ?thesis by (rule emit_regs)
  next
    case later
    then have "set (cmd_reg c) \<subseteq> set (shift_register s q)"
      by (rule Cons.IH)
    moreover have "set (shift_register s q) = set q"
      by (rule mset_eq_setD) simp
    ultimately show ?thesis by simp
  qed
qed

lemma sm_single: "sm [n] = [(0, n)]"
  by (simp add: sm_def)

lemma shift_default_single:
  "length q = n \<Longrightarrow> shift_default (sm [n]) q = shift_by q 1"
  by (simp add: sm_single shift_default_def set_slice_def get_slice_def)

lemma timeline_single_band:
  assumes "N s = [n]"
  shows "length q = n \<Longrightarrow>
    timeline (s\<lparr>shift := ShiftDefault\<rparr>) rc q steps = timeline (s\<lparr>shift := ShiftInt 1\<rparr>) rc q steps"
proof (induction steps arbitrary: q)
  case Nil
  then show ?case by simp
next
  case (Cons i steps)
  let ?d = "s\<lparr>shift := ShiftDefault\<rparr>" and ?i = "s\<lparr>shift := ShiftInt 1\<rparr>"
  have e: "emit ?d cmd q i = emit ?i cmd q i" for cmd
    by (rule emit_cong) simp_all
  from assms Cons.prems have q: "shift_register ?d q = shift_register ?i q"
    by (simp add: shift_register_def shift_default_single)
  from Cons.prems have "length (shift_register ?i q) = n"
    by simp
  then have "timeline ?d rc (shift_register ?i q) steps = timeline ?i rc (shift_register ?i q) steps"
    by (rule Cons.IH)
  then show ?case
    unfolding timeline.simps e q by (rule arg_cong)
qed

section \<open>The example programs\<close>

lemma doc_prog_built:
  "tdm_context (tdm_init [2]) [[PyInt 1, PyInt 2], [PyInt 3, PyInt 4]] (PyInt 1) ShiftDefault
     = Inr (tdm_init [2]\<lparr>copies := 1, tdm_params := [[PyInt 1, PyInt 2], [PyInt 3, PyInt 4]]\<rparr>)"
  "tdm_exit (foldl append_cmd
       (tdm_init [2]\<lparr>copies := 1, tdm_params := [[PyInt 1, PyInt 2], [PyInt 3, PyInt 4]]\<rparr>)
       doc_circuit) True = Inr doc_prog"
  by (simp_all add: tdm_context_def input_check_def tdm_init_def tdm_exit_def
      validate_measurements_def count_measured_def int_is_not_def append_cmd_def doc_circuit_def doc_prog_def
      gate_def measure_def)

lemma upt_2: "[0..<2] = [0, 1]"
  by (simp add: upt_conv_Cons)

lemma unroll_doc_prog: "unroll doc_prog = Inr doc_unrolled"
  by (simp add: unroll_def doc_prog_def doc_unrolled_def doc_circuit_def
      doc_unrolled_circuit_def gate_def measure_def register_def upt_2 apply_op_def
      resolve_params_def get_modes_def shift_register_def shift_default_def sm_single
      set_slice_def get_slice_def shift_by_def slice_index_def)

lemma one_mode_prog_built:
  "tdm_context (tdm_init [1]) [[PyInt 0, PyInt 0]] (PyInt 1) ShiftDefault
     = Inr (tdm_init [1]\<lparr>copies := 1, tdm_params := [[PyInt 0, PyInt 0]]\<rparr>)"
  "tdm_exit (append_cmd (tdm_init [1]\<lparr>copies := 1, tdm_params := [[PyInt 0, PyInt 0]]\<rparr>)
       (measure ''MeasureHomodyne'' [Symbolic 0] [0])) True = Inr one_mode_prog"
  by (simp_all add: tdm_context_def input_check_def tdm_init_def tdm_exit_def
      validate_measurements_def count_measured_def int_is_not_def append_cmd_def
      one_mode_prog_def measure_def)

lemma timeline_upt:
  "timeline s rc ((shift_register s ^^ a) q) [a..<a + n] =
     concat (map (\<lambda>t. map (\<lambda>cmd. emit s cmd ((shift_register s ^^ t) q) t) rc) [a..<a + n])"
proof (induction n arbitrary: a)
  case 0
  then show ?case by simp
next
  case (Suc n)
  have step: "[a..<a + Suc n] = a # [Suc a..<Suc a + n]"
    by (simp add: upt_conv_Cons del: upt_Suc)
  have "shift_register s ((shift_register s ^^ a) q) = (shift_register s ^^ Suc a) q"
    by simp
  with Suc.IH [of "Suc a"] show ?case
    unfolding step by (simp del: upt_Suc funpow.simps)
qed

lemma unroll_circuit_closed_form:
  assumes "unrolled_circuit s = None" and "rolled_circuit s = Some rc" and "unroll s = Inr s'"
  shows "map Inr (circuit s') =
     concat (map (\<lambda>t. map (\<lambda>cmd. emit s cmd ((shift_register s ^^ t) (register s)) t) rc)
       [0..<total_timebins s])"
proof -
  from assms(1,3) obtain rc' ms cs where "rolled_circuit s = Some rc'"
    and cs: "first_error (timeline s rc' (register s) [0..<total_timebins s]) = Inr cs"
    and s': "s' = s\<lparr>circuit := cs, measured_modes := measured_modes s @ ms,
                      unrolled_circuit := Some cs\<rparr>"
    by (rule unroll_fresh_cases)
  with assms(2) have "rc' = rc"
    by simp
  with cs have "timeline s rc (register s) [0..<total_timebins s] = map Inr cs"
    by (simp add: first_error_Inr_D)
  with timeline_upt [of s rc 0 "register s" "total_timebins s"] s' show ?thesis
    by simp
qed

lemma second_arg_prog_built:
  "tdm_context (tdm_init [2]) [[PyInt 1, PyInt 2]] (PyInt 1) ShiftDefault
     = Inr (tdm_init [2]\<lparr>copies := 1, tdm_params := [[PyInt 1, PyInt 2]]\<rparr>)"
  "tdm_exit (foldl append_cmd (tdm_init [2]\<lparr>copies := 1, tdm_params := [[PyInt 1, PyInt 2]]\<rparr>)
       second_arg_circuit) True = Inr second_arg_prog"
  by (simp_all add: tdm_context_def input_check_def tdm_init_def tdm_exit_def
      validate_measurements_def count_measured_def int_is_not_def append_cmd_def
      second_arg_circuit_def second_arg_prog_def gate_def measure_def)

lemma unroll_no_arg: "unroll no_arg_prog = Inl IndexError"
  by (simp add: unroll_def no_arg_prog_def one_mode_prog_def measure_def
      register_def upt_2 apply_op_def resolve_params_def)

section \<open>Claims about \<^verbatim>\<open>unroll\<close>\<close>

text \<open>
  C1, evaluated where the code departs from it: \<^verbatim>\<open>apply_op\<close> resolves \<^verbatim>\<open>params[0]\<close> only.
  For \<^verbatim>\<open>BSgate(0.5, p[0])\<close> the unrolled circuit keeps the placeholder \<^verbatim>\<open>p0\<close> as second
  argument in both time steps, where the claim has the values \<open>1\<close> and \<open>2\<close>; the first
  argument of \<^verbatim>\<open>MeasureHomodyne(p[0])\<close> is resolved, and the order of the commands and
  the shift between the steps are as claimed.
\<close>

theorem unroll_keeps_second_symbol:
  "map_sum id circuit (unroll second_arg_prog) =
     Inr [gate ''BSgate'' [Concrete (PyFloat 0.5), Symbolic 0] [0, 1],
          measure ''MeasureHomodyne'' [Concrete (PyInt 1)] [0],
          gate ''BSgate'' [Concrete (PyFloat 0.5), Symbolic 0] [1, 0],
          measure ''MeasureHomodyne'' [Concrete (PyInt 2)] [1]]"
  by (simp add: unroll_def second_arg_prog_def second_arg_circuit_def gate_def measure_def
      register_def upt_2 apply_op_def resolve_params_def get_modes_def shift_register_def
      shift_default_def sm_single set_slice_def get_slice_def shift_by_def slice_index_def)

text \<open>
  C7: \<^verbatim>\<open>unroll()\<close> is idempotent. When a call of \<^verbatim>\<open>unroll\<close> has returned, a second call
  returns the very same program state: the cached circuit is the active one, it is
  the circuit of the first call, and nothing is computed or recorded again.
\<close>

theorem unroll_idempotent: "unroll s = Inr s' \<Longrightarrow> unroll s' = Inr s' \<and> unrolled_circuit s' = Some (circuit s')"
proof (cases "unrolled_circuit s")
  case None
  assume "unroll s = Inr s'"
  with None obtain cs ms where "s' = s\<lparr>circuit := cs, measured_modes := measured_modes s @ ms,
      unrolled_circuit := Some cs\<rparr>"
    by (rule unroll_fresh_cases)
  then show ?thesis
    by (simp add: unroll_cached)
next
  case (Some c)
  assume "unroll s = Inr s'"
  with Some have "s' = s\<lparr>circuit := c\<rparr>"
    by (simp add: unroll_cached)
  with Some show ?thesis
    by (simp add: unroll_cached)
qed

theorem unroll_idempotent_witness:
  "unroll doc_prog = Inr doc_unrolled \<and> unroll doc_unrolled = Inr doc_unrolled
   \<and> unrolled_circuit doc_unrolled = Some (circuit doc_unrolled)"
  using unroll_idempotent [OF unroll_doc_prog] unroll_doc_prog by simp

text \<open>
  C8: for a program with exactly one spatial band, unrolling under the default shift
  and unrolling under the integer shift \<open>1\<close> give the same outcome, error or circuit,
  and the circuits agree command for command. The register pool has \<^verbatim>\<open>sum(N)\<close>
  entries, as \<^verbatim>\<open>__init__\<close> sets it up.
\<close>

theorem unroll_default_is_shift_one:
  assumes "length (N s) = 1" and "concurr_modes s = sum_list (N s)"
  shows "map_sum id circuit (unroll (s\<lparr>shift := ShiftDefault\<rparr>)) =
         map_sum id circuit (unroll (s\<lparr>shift := ShiftInt 1\<rparr>))"
proof -
  let ?d = "s\<lparr>shift := ShiftDefault\<rparr>" and ?i = "s\<lparr>shift := ShiftInt 1\<rparr>"
  from assms(1) obtain n where n: "N s = [n]"
    by (cases "N s") simp_all
  with assms(2) have len: "length (register s) = n"
    by (simp add: register_def)
  have reg: "register ?d = register s" "register ?i = register s"
    by (simp_all add: register_def)
  show ?thesis
  proof (cases "unrolled_circuit s")
    case (Some c)
    then show ?thesis by (simp add: unroll_cached)
  next
    case None
    then have fresh: "unrolled_circuit ?d = None" "unrolled_circuit ?i = None"
      by simp_all
    show ?thesis
    proof (cases "rolled_circuit s")
      case None
      with fresh show ?thesis by (simp add: unroll_not_frozen)
    next
      case (Some rc)
      then have rc: "rolled_circuit ?d = Some rc" "rolled_circuit ?i = Some rc"
        by simp_all
      have t: "timeline ?d rc (register ?d) [0..<total_timebins ?d] =
               timeline ?i rc (register ?i) [0..<total_timebins ?i]"
        using timeline_single_band [OF n len, of rc "[0..<total_timebins s]"]
        by (simp add: reg)
      show ?thesis
      proof (cases "measured_regs rc")
        case (Inl e)
        then show ?thesis
          by (simp add: unroll_fresh_Inl1 [OF fresh(1) rc(1)] unroll_fresh_Inl1 [OF fresh(2) rc(2)])
      next
        case (Inr ms)
        show ?thesis
        proof (cases "first_error (timeline ?i rc (register ?i) [0..<total_timebins ?i])")
          case (Inl e)
          from unroll_fresh_Inl2 [OF fresh(1) rc(1) Inr Inl [folded t]]
            unroll_fresh_Inl2 [OF fresh(2) rc(2) Inr Inl]
          show ?thesis by simp
        next
          case cs: (Inr cs)
          from unroll_fresh_Inr [OF fresh(1) rc(1) Inr cs [folded t]]
            unroll_fresh_Inr [OF fresh(2) rc(2) Inr cs]
          show ?thesis by simp
        qed
      qed
    qed
  qed
qed

theorem unroll_default_is_shift_one_witness:
  "length (N doc_prog) = 1 \<and> concurr_modes doc_prog = sum_list (N doc_prog)
   \<and> map_sum id circuit (unroll (doc_prog\<lparr>shift := ShiftInt 1\<rparr>)) = Inr doc_unrolled_circuit"
proof -
  have h: "length (N doc_prog) = 1" "concurr_modes doc_prog = sum_list (N doc_prog)"
    by (simp_all add: doc_prog_def)
  have "doc_prog\<lparr>shift := ShiftDefault\<rparr> = doc_prog"
    by (simp add: doc_prog_def)
  with unroll_default_is_shift_one [OF h] unroll_doc_prog h show ?thesis
    by (simp add: doc_unrolled_def)
qed

text \<open>
  C10: throughout \<^verbatim>\<open>unroll\<close> the register \<^verbatim>\<open>q\<close> stays a permutation of the pool
  \<open>0, \<dots>, sum(N) - 1\<close>. The register of time step \<open>t\<close> is the pool shifted \<open>t\<close> times;
  whatever the shift policy, it has the elements of the pool and its size, and every
  command of the unrolled circuit acts on registers of the pool only.
\<close>

theorem unroll_register_permutation:
  assumes "concurr_modes s = sum_list (N s)"
  shows "mset ((shift_register s ^^ t) (register s)) = mset [0..<sum_list (N s)]
    \<and> length ((shift_register s ^^ t) (register s)) = sum_list (N s)
    \<and> (unrolled_circuit s = None \<longrightarrow> unroll s = Inr s' \<longrightarrow>
         (\<forall>c\<in>set (circuit s'). set (cmd_reg c) \<subseteq> {0..<sum_list (N s)}))"
proof (intro conjI impI ballI)
  show m: "mset ((shift_register s ^^ t) (register s)) = mset [0..<sum_list (N s)]"
    using assms by (simp add: mset_shift_register_funpow register_def)
  from arg_cong [OF m, of size]
  show "length ((shift_register s ^^ t) (register s)) = sum_list (N s)"
    by simp
next
  fix c
  assume fresh: "unrolled_circuit s = None" and u: "unroll s = Inr s'" and c: "c \<in> set (circuit s')"
  from fresh u obtain rc ms cs where
    cs: "first_error (timeline s rc (register s) [0..<total_timebins s]) = Inr cs"
    and "s' = s\<lparr>circuit := cs, measured_modes := measured_modes s @ ms,
                      unrolled_circuit := Some cs\<rparr>"
    by (rule unroll_fresh_cases)
  with c have "c \<in> set cs"
    by simp
  with cs have "Inr c \<in> set (timeline s rc (register s) [0..<total_timebins s])"
    by (rule first_error_set)
  then have "set (cmd_reg c) \<subseteq> set (register s)"
    by (rule timeline_regs)
  with assms show "set (cmd_reg c) \<subseteq> {0..<sum_list (N s)}"
    by (simp add: register_def)
qed

theorem unroll_register_permutation_witness:
  "concurr_modes doc_prog = sum_list (N doc_prog) \<and> unrolled_circuit doc_prog = None
   \<and> unroll doc_prog = Inr doc_unrolled
   \<and> mset ((shift_register doc_prog ^^ 3) (register doc_prog)) = mset [0, 1]
   \<and> list_all (\<lambda>c. list_all (\<lambda>r. r < 2) (cmd_reg c)) (circuit doc_unrolled)"
proof -
  have h: "concurr_modes doc_prog = sum_list (N doc_prog)"
    by (simp add: doc_prog_def)
  have n: "sum_list (N doc_prog) = 2" "unrolled_circuit doc_prog = None"
    by (simp_all add: doc_prog_def)
  from unroll_register_permutation [OF h, of 3 doc_unrolled] n unroll_doc_prog h
  show ?thesis
    by (auto simp: list_all_iff upt_2 subset_iff)
qed

section \<open>Claims about construction\<close>

lemma lengths_differ:
  assumes "a \<in> set args" and "b \<in> set args" and "length a \<noteq> length b"
  shows "length (remdups (map length args)) \<noteq> 1"
proof -
  from assms have "{length a, length b} \<subseteq> set (map length args)"
    by auto
  then have "card {length a, length b} \<le> card (set (map length args))"
    by (intro card_mono) simp_all
  with assms(3) have "2 \<le> card (set (map length args))"
    by simp
  then show ?thesis
    by (simp add: length_remdups_card_conv)
qed

lemma lengths_agree:
  assumes "args \<noteq> []" and "\<forall>a\<in>set args. \<forall>b\<in>set args. length a = length b"
  shows "length (remdups (map length args)) = 1"
proof -
  from assms(1) have "hd args \<in> set args"
    by (rule list.set_sel)
  with assms(2) have "length a = length (hd args)" if "a \<in> set args" for a
    using that by blast
  then have "length ` set args = (\<lambda>a. length (hd args)) ` set args"
    by (intro image_cong) simp_all
  also from assms(1) have "\<dots> = {length (hd args)}"
    by (simp add: image_constant_conv)
  finally have "card (set (map length args)) = 1"
    by simp
  then show ?thesis
    by (simp add: length_remdups_card_conv)
qed

lemma input_check_copies:
  "length (remdups (map length args)) = 1 \<Longrightarrow> \<not> positive_int cp \<Longrightarrow>
   input_check args cp = Inl (TypeError ''Number of copies must be a positive integer.'')"
  by (cases cp) (simp_all add: input_check_def)

lemma input_check_rejects_copies: "\<not> positive_int cp \<Longrightarrow> \<exists>e. input_check args cp = Inl e"
  by (cases cp) (simp_all add: input_check_def)

lemma tdm_context_error: "input_check args cp = Inl e \<Longrightarrow> tdm_context s args cp sh = Inl e"
  by (simp add: tdm_context_def)

text \<open>
  C9 as stated fails: the length check runs first, so with sequences of unequal
  length a \<^verbatim>\<open>copies\<close> value of \<open>0\<close> is answered by the length error, not by the type
  error.
\<close>

theorem context_length_error_first:
  "tdm_context (tdm_init [2]) [[PyInt 1], [PyInt 1, PyInt 2]] (PyInt 0) ShiftDefault =
     Inl (ValueError ''Gate-parameter lists must be of equal length.'')
   \<and> \<not> positive_int (PyInt 0)"
  by (simp add: tdm_context_def input_check_def)

text \<open>
  C9, amended: \<^verbatim>\<open>context\<close> fails before the program is touched, so before any command is
  accepted, (a) with the length error whenever two of the sequences differ in length,
  (b) with some error whenever \<^verbatim>\<open>copies\<close> is not a positive integer, and (c) that error
  is the type error whenever at least one sequence is given and all sequences have
  the same length.
\<close>

theorem context_input_errors:
  "(a \<in> set args \<longrightarrow> b \<in> set args \<longrightarrow> length a \<noteq> length b \<longrightarrow>
      tdm_context s args cp sh = Inl (ValueError ''Gate-parameter lists must be of equal length.''))
   \<and> (\<not> positive_int cp \<longrightarrow> (\<exists>e. tdm_context s args cp sh = Inl e))
   \<and> (\<not> positive_int cp \<longrightarrow> args \<noteq> [] \<longrightarrow> (\<forall>a\<in>set args. \<forall>b\<in>set args. length a = length b) \<longrightarrow>
      tdm_context s args cp sh = Inl (TypeError ''Number of copies must be a positive integer.''))"
proof (intro conjI impI)
  assume "a \<in> set args" "b \<in> set args" "length a \<noteq> length b"
  then have "length (remdups (map length args)) \<noteq> 1"
    by (rule lengths_differ)
  then show "tdm_context s args cp sh = Inl (ValueError ''Gate-parameter lists must be of equal length.'')"
    by (simp add: tdm_context_def input_check_def)
next
  assume "\<not> positive_int cp"
  then obtain e where "input_check args cp = Inl e"
    using input_check_rejects_copies by blast
  then show "\<exists>e. tdm_context s args cp sh = Inl e"
    by (auto dest: tdm_context_error)
next
  assume "\<not> positive_int cp" "args \<noteq> []" "\<forall>a\<in>set args. \<forall>b\<in>set args. length a = length b"
  then show "tdm_context s args cp sh = Inl (TypeError ''Number of copies must be a positive integer.'')"
    by (intro tdm_context_error input_check_copies lengths_agree)
qed

theorem context_input_errors_witness:
  "tdm_context (tdm_init [2]) [[PyInt 1], [PyInt 1, PyInt 2]] (PyInt 3) ShiftDefault =
     Inl (ValueError ''Gate-parameter lists must be of equal length.'')
   \<and> tdm_context (tdm_init [2]) [[PyInt 1], [PyInt 2]] (PyFloat (1 / 137)) ShiftDefault =
     Inl (TypeError ''Number of copies must be a positive integer.'')"
  using context_input_errors [of "[PyInt 1]" "[[PyInt 1], [PyInt 1, PyInt 2]]" "[PyInt 1, PyInt 2]"
      "tdm_init [2]" "PyInt 3" ShiftDefault]
    context_input_errors [of "[PyInt 1]" "[[PyInt 1], [PyInt 2]]" "[PyInt 2]"
      "tdm_init [2]" "PyFloat (1 / 137)" ShiftDefault]
  by simp

text \<open>What \<^verbatim>\<open>validate_measurements\<close> counts, and what it does for counts up to \<open>256\<close>.\<close>

lemma foldl_count_measured:
  "foldl (\<lambda>acc cmd. if is_measurement (cmd_op cmd) then acc + length (cmd_reg cmd) else acc) a circ =
     a + (\<Sum>cmd\<leftarrow>filter (\<lambda>cmd. is_measurement (cmd_op cmd)) circ. length (cmd_reg cmd))"
  by (induction circ arbitrary: a) simp_all

lemma count_measured_sum:
  "count_measured circ =
     (\<Sum>cmd\<leftarrow>filter (\<lambda>cmd. is_measurement (cmd_op cmd)) circ. length (cmd_reg cmd))"
  by (simp add: count_measured_def foldl_count_measured)

lemma count_measured_wide: "count_measured wide_circuit = 257"
  by (simp add: count_measured_sum wide_circuit_def measure_def filter_map o_def sum_list_triv)

lemma validate_measurements_small:
  "count_measured circ \<le> 256 \<Longrightarrow>
   validate_measurements circ bands =
     (if count_measured circ = 0 then Inl (ValueError ''Must be at least one measurement.'')
      else if count_measured circ \<noteq> length bands
      then Inl (ValueError ''Number of measurement operators must match number of spatial modes.'')
      else Inr (count_measured circ))"
  by (simp add: validate_measurements_def int_is_not_def)

lemma tdm_exit_records:
  "tdm_exit s True = Inr s' \<Longrightarrow>
   spatial_modes s' = count_measured (circuit s) \<and> count_measured (circuit s) = length (N s)
   \<and> rolled_circuit s' = Some (circuit s)"
  by (auto simp: tdm_exit_def validate_measurements_def int_is_not_def
      split: if_splits list.splits)

text \<open>
  C5, evaluated where the code departs from it: with 257 bands and 257 measured
  registers the count equals the number of bands, and still the validator raises the
  mismatch error instead of recording the count, because \<^verbatim>\<open>is not\<close> compares object
  identity and the two integers \<open>257\<close> are different objects.
\<close>

theorem validate_measurements_wide:
  "count_measured (circuit wide_prog) = 257 \<and> length (N wide_prog) = 257
   \<and> validate_measurements (circuit wide_prog) (N wide_prog) =
       Inl (ValueError ''Number of measurement operators must match number of spatial modes.'')
   \<and> tdm_exit wide_prog True =
       Inl (ValueError ''Number of measurement operators must match number of spatial modes.'')"
  by (simp add: wide_prog_def tdm_init_def count_measured_wide tdm_exit_def
      validate_measurements_def int_is_not_def)

section \<open>Claims about device compilation\<close>

lemma test_prog_built:
  "tdm_exit (foldl append_cmd
       ((tdm_init [2])\<lparr>copies := 10, tdm_params := [alpha_ok, phi_bad, theta_ok]\<rparr>)
       test_circuit) True = Inr (test_prog alpha_ok phi_bad theta_ok)"
  by (simp add: tdm_init_def tdm_exit_def validate_measurements_def count_measured_def
      int_is_not_def append_cmd_def test_circuit_def test_prog_def gate_def measure_def
      alpha_ok_def)

lemma compile_test_prog: "compile (test_prog alpha_ok phi_ok theta_ok) test_device = Inr ()"
  by (simp add: compile_def test_prog_def test_circuit_def test_device_def gate_def measure_def
      alpha_ok_def)

lemma check_operations_assert:
  assumes "i < length rc"
    and "length (lop_args operation) < length (op_p (cmd_op (rc ! i)))"
    and "\<not> list_all is_zero (drop 1 (op_p (cmd_op (rc ! i))))"
  shows "check_operations s device rc i (operation # rest) = Inl AssertionError"
  using assms by simp

lemma check_operations_zero_tail:
  "check_operations s device rc i ops = Inr () \<Longrightarrow> k < length ops \<Longrightarrow>
   length (lop_args (ops ! k)) < length (op_p (cmd_op (rc ! (i + k)))) \<Longrightarrow>
   list_all is_zero (drop 1 (op_p (cmd_op (rc ! (i + k)))))"
proof (induction ops arbitrary: i k)
  case Nil
  then show ?case by simp
next
  case (Cons operation rest)
  from Cons.prems(1) have i: "i < length rc"
    by (simp split: if_splits)
  show ?case
  proof (cases k)
    case 0
    with Cons.prems i show ?thesis
      by (auto simp: Let_def split: if_splits)
  next
    case (Suc k')
    from Cons.prems(1) i have "check_operations s device rc (Suc i) rest = Inr ()"
      by (auto simp: Let_def split: if_splits sum.splits)
    from Cons.IH [OF this, of k'] Cons.prems(2,3) Suc show ?thesis
      by simp
  qed
qed

text \<open>
  C2, evaluated where the code departs from it: the counter of symbolic arguments
  starts at \<open>0\<close> for every operation, so the placeholder of \<^verbatim>\<open>Rgate(p[1])\<close> is checked
  against the sequence of \<^verbatim>\<open>p[0]\<close>. With the rotation angle \<open>100\<close> in the sequence bound
  to \<^verbatim>\<open>p[1]\<close>, outside the range \<open>[0, \<pi>]\<close> that the device declares for it, compilation
  succeeds.
\<close>

theorem compile_ignores_second_sequence:
  "compile (test_prog alpha_ok phi_bad theta_ok) test_device = Inr ()
   \<and> op_p (cmd_op (test_circuit ! 2)) = [Symbolic 1]
   \<and> tdm_params (test_prog alpha_ok phi_bad theta_ok) ! 1 = phi_bad
   \<and> lop_args (layout test_device ! 2) = [''p2'']
   \<and> map_of (gate_parameters test_device) ''p2'' = Some (Interval 0 3.141592653589793)
   \<and> \<not> list_all (\<lambda>x. in_range (num_val x) (Interval 0 3.141592653589793)) phi_bad"
  by (simp add: compile_def test_prog_def test_circuit_def test_device_def gate_def measure_def
      alpha_ok_def phi_bad_def)

text \<open>
  C4 as stated fails: when the layout declares no argument, the first argument of the
  command lies beyond the declared ones, is not zero, and is accepted without any
  check.
\<close>

theorem compile_unchecked_first_argument:
  "compile fixed_angle_prog bare_device = Inr ()
   \<and> rolled_circuit fixed_angle_prog = Some [measure ''MeasureHomodyne'' [Concrete (PyFloat 0.3)] [0]]
   \<and> lop_args (layout bare_device ! 0) = []
   \<and> \<not> is_zero (Concrete (PyFloat 0.3))"
  by (simp add: compile_def fixed_angle_prog_def one_mode_prog_def bare_device_def measure_def)

text \<open>
  C4, amended: when the layout declares fewer arguments for an operation than the
  command carries, a compilation that succeeds has found every argument of the command
  after the first one equal to zero (otherwise the assertion fails); so, with at least
  one declared argument, every argument beyond the declared ones is zero.
\<close>

theorem compile_asserts_zero_tail:
  assumes "compile s device = Inr ()" and "rolled_circuit s = Some rc"
    and "i < length (layout device)"
    and "length (lop_args (layout device ! i)) < length (op_p (cmd_op (rc ! i)))"
  shows "list_all is_zero (drop 1 (op_p (cmd_op (rc ! i))))
    \<and> (1 \<le> length (lop_args (layout device ! i)) \<longrightarrow>
         list_all is_zero (drop (length (lop_args (layout device ! i))) (op_p (cmd_op (rc ! i)))))"
proof -
  from assms(1,2) have "check_operations s device rc 0 (layout device) = Inr ()"
    by (simp add: compile_def split: if_splits)
  from check_operations_zero_tail [OF this assms(3)] assms(4)
  have z: "list_all is_zero (drop 1 (op_p (cmd_op (rc ! i))))"
    by simp
  have "list_all is_zero (drop n ps)" if "list_all is_zero (drop 1 ps)" and "1 \<le> n" for n ps
  proof -
    from that(2) have "set (drop n ps) \<subseteq> set (drop 1 ps)"
      by (rule set_drop_subset_set_drop)
    with that(1) show ?thesis
      unfolding list_all_iff by blast
  qed
  with z show ?thesis by blast
qed

theorem compile_asserts_zero_tail_witness:
  "compile (test_prog alpha_ok phi_ok theta_ok) test_device = Inr ()
   \<and> rolled_circuit (test_prog alpha_ok phi_ok theta_ok) = Some test_circuit
   \<and> 0 < length (layout test_device)
   \<and> length (lop_args (layout test_device ! 0)) < length (op_p (cmd_op (test_circuit ! 0)))
   \<and> list_all is_zero (drop 1 (op_p (cmd_op (test_circuit ! 0))))"
proof -
  have h: "rolled_circuit (test_prog alpha_ok phi_ok theta_ok) = Some test_circuit"
    "0 < length (layout test_device)"
    "length (lop_args (layout test_device ! 0)) < length (op_p (cmd_op (test_circuit ! 0)))"
    by (simp_all add: test_prog_def test_device_def test_circuit_def gate_def)
  from compile_asserts_zero_tail [OF compile_test_prog h] compile_test_prog h show ?thesis
    by simp
qed

section \<open>Claims about the capacity check\<close>

text \<open>
  C3 as stated fails: a program with fewer concurrent modes than the device has is
  accepted, although the two counts are not equal.
\<close>

theorem capacity_check_accepts_fewer_modes:
  "assert_number_of_modes one_mode_prog test_device = Inr ()
   \<and> concurr_modes one_mode_prog \<noteq> modes_concurrent test_device"
  by (simp add: assert_number_of_modes_def one_mode_prog_def test_device_def)

text \<open>
  C3, amended: the capacity check raises an error exactly when the time-bin count, the
  concurrent-mode count or the spatial-mode count is greater than what the device
  declares. A time-bin count that is too large raises the circuit error of the temporal
  modes; otherwise a concurrent-mode count that is too large raises the circuit error
  of the concurrent modes; both name the count, the device and its limit.
\<close>

theorem capacity_check_exceeded:
  "((\<exists>e. assert_number_of_modes s d = Inl e) \<longleftrightarrow>
      (modes_temporal_max d < timebins s \<or> modes_concurrent d < concurr_modes s
       \<or> modes_spatial d < spatial_modes s))
   \<and> (modes_temporal_max d < timebins s \<longrightarrow>
        assert_number_of_modes s d =
          Inl (CircuitError (TemporalModes (timebins s) (target d) (modes_temporal_max d))))
   \<and> (timebins s \<le> modes_temporal_max d \<longrightarrow> modes_concurrent d < concurr_modes s \<longrightarrow>
        assert_number_of_modes s d =
          Inl (CircuitError (ConcurrentModes (concurr_modes s) (target d) (modes_concurrent d))))"
  by (simp add: assert_number_of_modes_def)

theorem capacity_check_exceeded_witness:
  "modes_temporal_max test_device < timebins (doc_prog\<lparr>timebins := 200\<rparr>)
   \<and> assert_number_of_modes (doc_prog\<lparr>timebins := 200\<rparr>) test_device =
       Inl (CircuitError (TemporalModes 200 ''tdm'' 100))
   \<and> timebins (doc_prog\<lparr>concurr_modes := 42\<rparr>) \<le> modes_temporal_max test_device
   \<and> modes_concurrent test_device < concurr_modes (doc_prog\<lparr>concurr_modes := 42\<rparr>)
   \<and> assert_number_of_modes (doc_prog\<lparr>concurr_modes := 42\<rparr>) test_device =
       Inl (CircuitError (ConcurrentModes 42 ''tdm'' 2))"
  using capacity_check_exceeded [of "doc_prog\<lparr>timebins := 200\<rparr>" test_device]
    capacity_check_exceeded [of "doc_prog\<lparr>concurr_modes := 42\<rparr>" test_device]
  by (simp add: doc_prog_def test_device_def)

section \<open>Claims about \<^verbatim>\<open>reshape_samples\<close>\<close>

text \<open>
  Two runs: the raw samples of both registers of one band, and raw samples that hold
  all six outcomes under register \<open>0\<close>, for which the schedule \<open>0, 1, 0, 1, 0, 1\<close> asks
  register \<open>1\<close> in vain.
\<close>

lemma reshape_ex:
  "reshape_samples raw_samples [0] [2] = Inr ([(0, [10, 20, 30, 40, 50, 60])], [(0, []), (1, [])])"
  by code_simp

lemma reshape_missing_register: "reshape_samples [(0, [10, 30, 50, 20, 40, 60 :: nat])] [0] [2] = Inl KeyError"
  by code_simp

lemma pending_update:
  "pending (AList.update k v d) m = (if m = k then v else pending d m)"
  by (simp add: pending_def update_conv')

lemma map_of_Some_pending: "map_of d k = Some xs \<Longrightarrow> pending d k = xs"
  by (simp add: pending_def)

lemma upt_Suc_shift: "[0..<Suc n] = 0 # map Suc [0..<n]"
  by (simp add: upt_conv_Cons map_Suc_upt del: upt_Suc)

lemma fifo_outcomes_Nil [simp]: "fifo_outcomes modes n i [] d idx = []"
  by (simp add: fifo_outcomes_def)

lemma fifo_outcomes_Cons:
  assumes "map_of d m = Some (x # xs)"
  shows "fifo_outcomes modes n i (m # rest) d idx =
     (if modes ! (i mod n) = idx then [x] else []) @
     fifo_outcomes modes n (Suc i) rest (AList.update m xs d) idx"
proof -
  let ?pick = "\<lambda>j. pending d ((m # rest) ! j) ! count_list (take j (m # rest)) ((m # rest) ! j)"
  let ?pick' = "\<lambda>j. pending (AList.update m xs d) (rest ! j) ! count_list (take j rest) (rest ! j)"
  let ?later = "filter (\<lambda>j. modes ! ((Suc i + j) mod n) = idx) [0..<length rest]"
  from assms have p: "pending d m = x # xs"
    by (rule map_of_Some_pending)
  have pick: "?pick (Suc j) = ?pick' j" for j
    by (simp add: pending_update p)
  have first: "?pick 0 = x"
    by (simp add: p)
  have later: "map ?pick (map Suc ?later) = fifo_outcomes modes n (Suc i) rest (AList.update m xs d) idx"
    unfolding fifo_outcomes_def map_map o_def pick ..
  have "fifo_outcomes modes n i (m # rest) d idx =
      map ?pick (filter (\<lambda>j. modes ! ((i + j) mod n) = idx) (0 # map Suc [0..<length rest]))"
    unfolding fifo_outcomes_def by (simp only: length_Cons upt_Suc_shift)
  also have "filter (\<lambda>j. modes ! ((i + j) mod n) = idx) (0 # map Suc [0..<length rest]) =
      (if modes ! (i mod n) = idx then [0] else []) @ map Suc ?later"
    by (simp add: filter_map o_def)
  finally have "fifo_outcomes modes n i (m # rest) d idx =
      map ?pick (if modes ! (i mod n) = idx then [0] else []) @ map ?pick (map Suc ?later)"
    by (simp only: map_append)
  also have "map ?pick (if modes ! (i mod n) = idx then [0] else []) =
      (if modes ! (i mod n) = idx then [x] else [])"
    using first by simp
  finally show ?thesis
    unfolding later .
qed

lemma map_of_add_outcome:
  "map_of (add_outcome idx x new) k = (if k = idx then Some (pending new k @ [x]) else map_of new k)"
  by (auto simp: add_outcome_def update_conv' pending_def)

lemma pending_add_outcome:
  "pending (add_outcome idx x new) k = (if k = idx then pending new k @ [x] else pending new k)"
  by (simp add: pending_def map_of_add_outcome)

lemma reshape_loop_step:
  "n \<noteq> 0 \<Longrightarrow> i mod n < length modes \<Longrightarrow> map_of d m = Some (x # xs) \<Longrightarrow>
   reshape_loop modes n i (m # rest) d new =
     reshape_loop modes n (Suc i) rest (AList.update m xs d) (add_outcome (modes ! (i mod n)) x new)"
  by simp

lemma reshape_loop_Cons_Inr:
  assumes "reshape_loop modes n i (m # rest) d new = Inr r"
  obtains x xs where "n \<noteq> 0" and "i mod n < length modes"
    and "map_of d m = Some (x # xs)"
    and "reshape_loop modes n (Suc i) rest (AList.update m xs d)
           (add_outcome (modes ! (i mod n)) x new) = Inr r"
proof -
  from assms have n: "n \<noteq> 0" and i: "i mod n < length modes"
    by (auto split: if_splits)
  from assms n i obtain x xs where d: "map_of d m = Some (x # xs)"
    by (auto split: option.splits list.splits)
  from assms show ?thesis
    unfolding reshape_loop_step [OF n i d] using n i d that by blast
qed

lemma reshape_loop_Inr:
  "reshape_loop modes n i ms d new = Inr (new', d') \<Longrightarrow>
   map_of d' m = map_option (drop (count_list ms m)) (map_of d m) \<and>
   map_of new' idx =
     (if fifo_outcomes modes n i ms d idx = [] then map_of new idx
      else Some (pending new idx @ fifo_outcomes modes n i ms d idx))"
proof (induction ms arbitrary: i d new)
  case Nil
  then show ?case
    by (simp add: option.map_ident)
next
  case (Cons m0 rest)
  let ?new1 = "\<lambda>x. add_outcome (modes ! (i mod n)) x new"
  from Cons.prems obtain x xs where d: "map_of d m0 = Some (x # xs)"
    and loop: "reshape_loop modes n (Suc i) rest (AList.update m0 xs d) (?new1 x) = Inr (new', d')"
    by (rule reshape_loop_Cons_Inr)
  let ?d1 = "AList.update m0 xs d"
  let ?later = "fifo_outcomes modes n (Suc i) rest ?d1 idx"
  from Cons.IH [OF loop]
  have d': "map_of d' m = map_option (drop (count_list rest m)) (map_of ?d1 m)"
    and new': "map_of new' idx =
      (if ?later = [] then map_of (?new1 x) idx else Some (pending (?new1 x) idx @ ?later))"
    by simp_all
  from d' d have "map_of d' m = map_option (drop (count_list (m0 # rest) m)) (map_of d m)"
    by (simp add: update_conv')
  moreover from new' have "map_of new' idx =
     (if fifo_outcomes modes n i (m0 # rest) d idx = [] then map_of new idx
      else Some (pending new idx @ fifo_outcomes modes n i (m0 # rest) d idx))"
    unfolding fifo_outcomes_Cons [OF d] by (simp add: map_of_add_outcome pending_add_outcome)
  ultimately show ?case by simp
qed

lemma reshape_loop_over_request:
  "length (pending d m) < count_list ms m \<Longrightarrow> n \<noteq> 0 \<Longrightarrow>
   reshape_loop modes n i ms d new = Inl IndexError \<or> reshape_loop modes n i ms d new = Inl KeyError"
proof (induction ms arbitrary: i d new)
  case Nil
  then show ?case by simp
next
  case (Cons m0 rest)
  show ?case
  proof (cases "i mod n < length modes")
    case False
    with Cons.prems(2) show ?thesis by simp
  next
    case True
    show ?thesis
    proof (cases "map_of d m0")
      case None
      with Cons.prems(2) True show ?thesis by simp
    next
      case (Some ys)
      show ?thesis
      proof (cases ys)
        case Nil
        with Some Cons.prems(2) True show ?thesis by simp
      next
        case (Cons x xs)
        with Some have d: "map_of d m0 = Some (x # xs)"
          by simp
        then have "pending d m0 = x # xs"
          by (rule map_of_Some_pending)
        with Cons.prems(1) have "length (pending (AList.update m0 xs d) m) < count_list rest m"
          by (auto simp: pending_update split: if_splits)
        from Cons.IH [OF this Cons.prems(2)] show ?thesis
          unfolding reshape_loop_step [OF Cons.prems(2) True d] .
      qed
    qed
  qed
qed

lemma reshape_loop_enough:
  "\<forall>m. count_list ms m \<le> length (pending d m) \<Longrightarrow> n \<noteq> 0 \<Longrightarrow> n \<le> length modes \<Longrightarrow>
   \<exists>r. reshape_loop modes n i ms d new = Inr r"
proof (induction ms arbitrary: i d new)
  case Nil
  then show ?case by simp
next
  case (Cons m0 rest)
  from Cons.prems(1) have "count_list (m0 # rest) m0 \<le> length (pending d m0)"
    by blast
  then have "1 \<le> length (pending d m0)"
    by simp
  then obtain x xs where p: "pending d m0 = x # xs"
    by (cases "pending d m0") simp_all
  then have d: "map_of d m0 = Some (x # xs)"
    by (simp add: pending_def split: option.splits)
  from Cons.prems(2) have "i mod n < n"
    by simp
  with Cons.prems(3) have i: "i mod n < length modes"
    by simp
  have "count_list rest m \<le> length (pending (AList.update m0 xs d) m)" for m
    using Cons.prems(1) [rule_format, of m] p by (auto simp: pending_update split: if_splits)
  then have "\<forall>m. count_list rest m \<le> length (pending (AList.update m0 xs d) m)"
    by blast
  from Cons.IH [OF this Cons.prems(2,3)] show ?case
    unfolding reshape_loop_step [OF Cons.prems(2) i d] .
qed

lemma ceil_div_covers: "0 < b \<Longrightarrow> a \<le> ceil_div a b * b"
proof -
  assume b: "0 < b"
  then have "a + b - 1 < b + b * ((a + b - 1) div b)"
    by (rule dividend_less_times_div)
  with b show ?thesis
    by (simp add: ceil_div_def mult.commute)
qed

lemma get_mode_order_Inr:
  assumes "get_mode_order k bands = Inr sched"
  shows "bands \<noteq> []" and "length sched = k"
proof -
  show "bands \<noteq> []"
  proof
    assume "bands = []"
    with assms show False
      by (simp add: get_mode_order_def zip_star_def)
  qed
  from assms obtain all_modes where
    fe: "first_error (map (band_modes bands) [0..<length bands]) = Inr all_modes"
    by (cases "first_error (map (band_modes bands) [0..<length bands])")
      (simp_all add: get_mode_order_def)
  define mode_order where "mode_order = concat (zip_star all_modes)"
  from assms have branch: "(if mode_order = [] then Inl ZeroDivisionError
      else Inr (take k (concat (replicate (ceil_div k (length mode_order)) mode_order)))) =
      Inr sched"
    by (simp only: get_mode_order_def fe sum.case Let_def mode_order_def)
  then have mo: "mode_order \<noteq> []"
    by (cases "mode_order = []") simp_all
  with branch
  have sched: "sched = take k (concat (replicate (ceil_div k (length mode_order)) mode_order))"
    by simp
  from mo have "k \<le> ceil_div k (length mode_order) * length mode_order"
    by (intro ceil_div_covers) simp
  with sched show "length sched = k"
    by (simp add: length_concat sum_list_replicate)
qed

text \<open>
  What \<^verbatim>\<open>reshape_samples\<close> does with the list \<open>sched\<close> that \<^verbatim>\<open>_get_mode_order\<close> returns for
  the total number of recorded outcomes. The list has exactly that length. When
  \<^verbatim>\<open>reshape_samples\<close> returns, the channel \<open>idx\<close> holds, in the order of the list, the
  outcomes of the positions \<open>j\<close> with \<open>modes[j mod len(N)] = idx\<close>, the outcome of
  position \<open>j\<close> being the next one not yet taken from its register (first in, first
  out), and a channel that no position feeds is absent; every register has lost as
  many outcomes from its front as the list visits it. When the list visits a register
  more often than outcomes were recorded for it, \<^verbatim>\<open>reshape_samples\<close> fails, with an
  \<^verbatim>\<open>IndexError\<close> or a \<^verbatim>\<open>KeyError\<close>; when no register is visited too often and \<open>modes\<close> has
  an entry for every band, it returns.
\<close>

lemma reshape_samples_walk:
  assumes "get_mode_order (length (concat (map snd all_samples))) bands = Inr sched"
    and "outs = map (\<lambda>j. pending all_samples (sched ! j) ! count_list (take j sched) (sched ! j))
                  (filter (\<lambda>j. modes ! (j mod length bands) = idx) [0..<length sched])"
  shows "length sched = length (concat (map snd all_samples))
    \<and> (reshape_samples all_samples modes bands = Inr (new, rest) \<longrightarrow>
          map_of new idx = (if outs = [] then None else Some outs)
          \<and> map_of rest m = map_option (drop (count_list sched m)) (map_of all_samples m))
    \<and> (length (pending all_samples m) < count_list sched m \<longrightarrow>
          reshape_samples all_samples modes bands = Inl IndexError
          \<or> reshape_samples all_samples modes bands = Inl KeyError)
    \<and> (length bands \<le> length modes \<longrightarrow>
          (\<forall>m. count_list sched m \<le> length (pending all_samples m)) \<longrightarrow>
          (\<exists>r. reshape_samples all_samples modes bands = Inr r))"
proof -
  have run: "reshape_samples all_samples modes bands =
      reshape_loop modes (length bands) 0 sched all_samples []"
    using assms(1) by (simp add: reshape_samples_def)
  from assms(1) have n: "length bands \<noteq> 0"
    by (simp add: get_mode_order_Inr(1))
  from assms(2) have outs: "outs = fifo_outcomes modes (length bands) 0 sched all_samples idx"
    by (simp add: fifo_outcomes_def)
  have "length sched = length (concat (map snd all_samples))"
    using assms(1) by (rule get_mode_order_Inr(2))
  moreover have "map_of new idx = (if outs = [] then None else Some outs)
      \<and> map_of rest m = map_option (drop (count_list sched m)) (map_of all_samples m)"
    if "reshape_samples all_samples modes bands = Inr (new, rest)"
    using reshape_loop_Inr [OF that [unfolded run], of m idx] outs
    by (simp add: pending_def)
  moreover have "reshape_samples all_samples modes bands = Inl IndexError
      \<or> reshape_samples all_samples modes bands = Inl KeyError"
    if "length (pending all_samples m) < count_list sched m"
    unfolding run using that n by (rule reshape_loop_over_request)
  moreover have "\<exists>r. reshape_samples all_samples modes bands = Inr r"
    if "length bands \<le> length modes" "\<forall>m. count_list sched m \<le> length (pending all_samples m)"
    unfolding run using that(2) n that(1) by (rule reshape_loop_enough)
  ultimately show ?thesis by blast
qed

lemma reshape_samples_walk_example:
  "get_mode_order (length (concat (map snd raw_samples))) [2] = Inr [0, 1, 0, 1, 0, 1]
   \<and> reshape_samples raw_samples [0] [2] =
        Inr ([(0, [10, 20, 30, 40, 50, 60])], [(0, []), (1, [])])
   \<and> map_of [(0 :: nat, [10, 20, 30, 40, 50, 60 :: nat])] 0 =
        Some (map (\<lambda>j. pending raw_samples ([0, 1, 0, 1, 0, 1 :: nat] ! j) !
                     count_list (take j [0, 1, 0, 1, 0, 1 :: nat]) ([0, 1, 0, 1, 0, 1 :: nat] ! j))
               (filter (\<lambda>j. [0] ! (j mod length [2 :: nat]) = (0 :: nat))
                  [0..<length [0, 1, 0, 1, 0, 1 :: nat]]))
   \<and> get_mode_order (length (concat (map snd [(0 :: nat, [10, 30, 50, 20, 40, 60 :: nat])]))) [2]
        = Inr [0, 1, 0, 1, 0, 1]
   \<and> length (pending [(0, [10, 30, 50, 20, 40, 60 :: nat])] 1) < count_list [0, 1, 0, 1, 0, 1 :: nat] 1
   \<and> (reshape_samples [(0, [10, 30, 50, 20, 40, 60 :: nat])] [0] [2] = Inl IndexError
        \<or> reshape_samples [(0, [10, 30, 50, 20, 40, 60 :: nat])] [0] [2] = Inl KeyError)"
proof -
  let ?outs = "map (\<lambda>j. pending raw_samples ([0, 1, 0, 1, 0, 1 :: nat] ! j) !
                     count_list (take j [0, 1, 0, 1, 0, 1 :: nat]) ([0, 1, 0, 1, 0, 1 :: nat] ! j))
               (filter (\<lambda>j. [0] ! (j mod length [2 :: nat]) = (0 :: nat))
                  [0..<length [0, 1, 0, 1, 0, 1 :: nat]])"
  have g: "get_mode_order (length (concat (map snd raw_samples))) [2] = Inr [0, 1, 0, 1, 0, 1]"
    by code_simp
  have g': "get_mode_order (length (concat (map snd [(0 :: nat, [10, 30, 50, 20, 40, 60 :: nat])]))) [2]
        = Inr [0, 1, 0, 1, 0, 1]"
    by code_simp
  have short: "length (pending [(0, [10, 30, 50, 20, 40, 60 :: nat])] 1) < count_list [0, 1, 0, 1, 0, 1 :: nat] 1"
    by code_simp
  have nonempty: "?outs \<noteq> []"
    by code_simp
  note first = reshape_samples_walk [OF g refl, where modes = "[0]" and idx = 0
      and new = "[(0, [10, 20, 30, 40, 50, 60])]" and rest = "[(0, []), (1, [])]" and m = 0]
  from first [THEN conjunct2, THEN conjunct1, THEN mp, OF reshape_ex]
  have "map_of [(0 :: nat, [10, 20, 30, 40, 50, 60 :: nat])] 0 = (if ?outs = [] then None else Some ?outs)"
    by (rule conjunct1)
  with nonempty have new: "map_of [(0 :: nat, [10, 20, 30, 40, 50, 60 :: nat])] 0 = Some ?outs"
    by (simp only: if_False)
  note second = reshape_samples_walk [OF g' refl, where modes = "[0]" and idx = 0 and m = 1]
  from second [THEN conjunct2, THEN conjunct2, THEN conjunct1, THEN mp, OF short]
  have "reshape_samples [(0, [10, 30, 50, 20, 40, 60 :: nat])] [0] [2] = Inl IndexError
        \<or> reshape_samples [(0, [10, 30, 50, 20, 40, 60 :: nat])] [0] [2] = Inl KeyError" .
  with g g' short reshape_ex new show ?thesis
    by (intro conjI)
qed

text \<open>
  The order by which \<^verbatim>\<open>unroll\<close> measures the registers, for the two example programs,
  and what \<^verbatim>\<open>_get_mode_order\<close> and \<^verbatim>\<open>reshape_samples\<close> make of the samples recorded in
  that order. For one band measured at its second register the list of
  \<^verbatim>\<open>_get_mode_order\<close> starts at the wrong register, and every pair of outcomes comes
  out swapped.
\<close>

lemma two_band_prog_built:
  "tdm_context (tdm_init [2, 3]) [replicate 6 (PyInt 0), replicate 6 (PyInt 0)] (PyInt 1) ShiftDefault
     = Inr (tdm_init [2, 3]\<lparr>copies := 1,
         tdm_params := [replicate 6 (PyInt 0), replicate 6 (PyInt 0)]\<rparr>)"
  "tdm_exit (foldl append_cmd (tdm_init [2, 3]\<lparr>copies := 1,
         tdm_params := [replicate 6 (PyInt 0), replicate 6 (PyInt 0)]\<rparr>)
       two_band_circuit) True = Inr two_band_prog"
  by (simp_all add: tdm_context_def input_check_def tdm_init_def tdm_exit_def
      validate_measurements_def count_measured_def int_is_not_def append_cmd_def
      two_band_circuit_def two_band_prog_def measure_def)

lemma unroll_second_slot_order:
  "map_sum id (\<lambda>s. (measured_modes s, measured_order (circuit s))) (unroll second_slot_prog) =
     Inr ([1], [1, 0, 1, 0])"
  by code_simp

lemma reshape_second_slot:
  "record_samples [1, 0, 1, 0] [1, 2, 3, 4 :: nat] [] = [(1, [1, 3]), (0, [2, 4])]"
  "get_mode_order 4 [2] = Inr [0, 1, 0, 1]"
  "reshape_samples [(1, [1, 3]), (0, [2, 4 :: nat])] [1] [2] =
     Inr ([(1, [2, 1, 4, 3])], [(1, []), (0, [])])"
  by code_simp+

text \<open>
  C6, evaluated where the code departs from it. With bands of two and of three modes
  \<^verbatim>\<open>unroll\<close> measures the registers in the order \<open>0, 2, 1, 3, 0, 4, 1, 2, 0, 3, 1, 4\<close>; the
  samples of the twelve outcomes are recorded in that order. The list that
  \<^verbatim>\<open>reshape_samples\<close> walks is \<open>0, 2, 1, 3, 0, 4\<close> twice: it is not the order by which the
  modes were measured, it asks register \<open>0\<close> for a fourth outcome, and
  \<^verbatim>\<open>reshape_samples\<close> raises \<^verbatim>\<open>IndexError\<close> on consistent data. Walking the order of the
  measurements, as the claim has it, the same loop takes every outcome and hands the
  channels \<open>0\<close> and \<open>2\<close> their outcomes in the order of time.
\<close>

theorem reshape_schedule_not_measured_order:
  "map_sum id (\<lambda>s. (measured_modes s, measured_order (circuit s))) (unroll two_band_prog) =
     Inr ([0, 2], two_band_order)
   \<and> record_samples two_band_order [1, 2, 3, 4, 5, 6, 7, 8, 9, 10, 11, 12] [] = two_band_samples
   \<and> get_mode_order (length (concat (map snd two_band_samples))) [2, 3] =
       Inr [0, 2, 1, 3, 0, 4, 0, 2, 1, 3, 0, 4]
   \<and> reshape_samples two_band_samples [0, 2] [2, 3] = Inl IndexError
   \<and> reshape_loop [0, 2] (length [2, 3 :: nat]) 0 two_band_order two_band_samples [] =
       Inr ([(0, [1, 3, 5, 7, 9, 11]), (2, [2, 4, 6, 8, 10, 12])],
            [(0, []), (2, []), (1, []), (3, []), (4, [])])"
  by code_simp

end
